theory Spec2Isabelle
  imports Main "HOL-Library.Sublist"
begin

section \<open>Text and the character classes of Python\<close>

text \<open>
  The converter works on Python \<open>str\<close> values. A text is modelled as a \<open>string\<close>, each
  \<open>char\<close> read as the Unicode code point of the same number (0 to 255); code points
  above 255 are outside the model. The classes below are the restrictions of Python's
  \<open>str.isspace\<close> (\<open>\s\<close> of \<open>re\<close>, \<open>str.strip\<close>), of \<open>\d\<close> and of \<open>\w\<close> to that range.
\<close>

definition py_space :: "char \<Rightarrow> bool" where
  "py_space c = (c \<in> set [CHR 0x09, CHR 0x0A, CHR 0x0B, CHR 0x0C, CHR 0x0D,
                            CHR 0x1C, CHR 0x1D, CHR 0x1E, CHR 0x1F, CHR 0x20,
                            CHR 0x85, CHR 0xA0])"

definition py_digit :: "char \<Rightarrow> bool" where
  "py_digit c = (c \<in> set ''0123456789'')"

definition ascii_word :: "char \<Rightarrow> bool" where
  "ascii_word c = (c \<in> set ''abcdefghijklmnopqrstuvwxyzABCDEFGHIJKLMNOPQRSTUVWXYZ0123456789_'')"

definition py_word :: "char \<Rightarrow> bool" where
  "py_word c = (ascii_word c \<or> c \<in> set [CHR 0xAA, CHR 0xB2, CHR 0xB3, CHR 0xB5, CHR 0xB9,
        CHR 0xBA, CHR 0xBC, CHR 0xBD, CHR 0xBE,
        CHR 0xC0, CHR 0xC1, CHR 0xC2, CHR 0xC3, CHR 0xC4, CHR 0xC5, CHR 0xC6, CHR 0xC7,
        CHR 0xC8, CHR 0xC9, CHR 0xCA, CHR 0xCB, CHR 0xCC, CHR 0xCD, CHR 0xCE, CHR 0xCF,
        CHR 0xD0, CHR 0xD1, CHR 0xD2, CHR 0xD3, CHR 0xD4, CHR 0xD5, CHR 0xD6,
        CHR 0xD8, CHR 0xD9, CHR 0xDA, CHR 0xDB, CHR 0xDC, CHR 0xDD, CHR 0xDE, CHR 0xDF,
        CHR 0xE0, CHR 0xE1, CHR 0xE2, CHR 0xE3, CHR 0xE4, CHR 0xE5, CHR 0xE6, CHR 0xE7,
        CHR 0xE8, CHR 0xE9, CHR 0xEA, CHR 0xEB, CHR 0xEC, CHR 0xED, CHR 0xEE, CHR 0xEF,
        CHR 0xF0, CHR 0xF1, CHR 0xF2, CHR 0xF3, CHR 0xF4, CHR 0xF5, CHR 0xF6,
        CHR 0xF8, CHR 0xF9, CHR 0xFA, CHR 0xFB, CHR 0xFC, CHR 0xFD, CHR 0xFE, CHR 0xFF])"

definition nl :: char where
  "nl = CHR 0x0A"

text \<open>\<open>str.strip()\<close>: whitespace removed at both ends.\<close>

definition py_strip :: "string \<Rightarrow> string" where
  "py_strip s = rev (dropWhile py_space (rev (dropWhile py_space s)))"

text \<open>
  \<open>str.replace(old, new)\<close>: the occurrences of \<open>old\<close>, found from the left and not
  overlapping, are replaced. With an empty \<open>old\<close> Python puts \<open>new\<close> around every
  character.
\<close>

function str_replace :: "string \<Rightarrow> string \<Rightarrow> string \<Rightarrow> string" where
  "str_replace old new s =
     (if old = [] then new @ concat (map (\<lambda>c. c # new) s)
      else if prefix old s then new @ str_replace old new (drop (length old) s)
      else (case s of [] \<Rightarrow> [] | c # cs \<Rightarrow> c # str_replace old new cs))"
  by pat_completeness auto
termination
  by (relation "measure (\<lambda>(old, new, s). length s)") (auto simp: prefix_def)

declare str_replace.simps [simp del]

text \<open>\<open>str.split('\n')\<close> and \<open>'\n'.join\<close>.\<close>

fun split_on :: "char \<Rightarrow> string \<Rightarrow> string list" where
  "split_on d [] = [[]]"
| "split_on d (c # cs) =
     (if c = d then [] # split_on d cs
      else (case split_on d cs of l # ls \<Rightarrow> (c # l) # ls | [] \<Rightarrow> [[c]]))"

fun join_with :: "string \<Rightarrow> string list \<Rightarrow> string" where
  "join_with d [] = []"
| "join_with d [l] = l"
| "join_with d (l # ls) = l @ d @ join_with d ls"

section \<open>The regular expressions of \<open>re\<close>\<close>

text \<open>
  The patterns of the program are values of \<open>rx\<close>; the matcher follows the backtracking
  order of Python's \<open>re\<close>. A state of the matcher is the character before the current
  position (\<open>None\<close> at the start of the text), the text still to read, and the groups
  captured so far (the latest capture of a group first).
\<close>

type_synonym caps = "(nat \<times> string) list"
type_synonym mst = "char option \<times> string \<times> caps"

datatype rx =
    Lit char                                  \<comment> \<open>a literal character\<close>
  | Cls "char \<Rightarrow> bool"                       \<comment> \<open>one character of a class\<close>
  | Many "char \<Rightarrow> bool" nat "nat option" bool \<comment> \<open>class repeated \<open>{lo,hi}\<close>; \<open>True\<close>: greedy\<close>
  | Eps
  | Seq rx rx
  | Alt rx rx
  | Opt rx                                    \<comment> \<open>\<open>(r)?\<close>, greedy\<close>
  | Star rx                                   \<comment> \<open>\<open>(r)*\<close>, greedy\<close>
  | Grp nat rx                                \<comment> \<open>capturing group number \<open>n\<close>\<close>
  | Bos                                       \<comment> \<open>\<open>^\<close> without MULTILINE\<close>
  | Eos                                       \<comment> \<open>\<open>$\<close> without MULTILINE\<close>
  | Bol                                       \<comment> \<open>\<open>^\<close> with MULTILINE\<close>
  | Eol                                       \<comment> \<open>\<open>$\<close> with MULTILINE\<close>
  | Ahead bool rx                             \<comment> \<open>\<open>(?=r)\<close> if \<open>True\<close>, \<open>(?!r)\<close> if \<open>False\<close>\<close>
  | Behind bool "char \<Rightarrow> bool"               \<comment> \<open>\<open>(?<=[c])\<close> if \<open>True\<close>, \<open>(?<![c])\<close> if \<open>False\<close>\<close>

text \<open>
  \<open>runs P p s\<close>: the states after reading 0, 1, 2, ... characters of the class \<open>P\<close> from
  \<open>s\<close>, shortest first.
\<close>

fun runs :: "(char \<Rightarrow> bool) \<Rightarrow> char option \<Rightarrow> string \<Rightarrow> (char option \<times> string) list" where
  "runs P p [] = [(p, [])]"
| "runs P p (x # xs) = (p, x # xs) # (if P x then runs P (Some x) xs else [])"

text \<open>
  \<open>iter n f st\<close>: greedy repetition of the matcher \<open>f\<close>, at most \<open>n\<close> times, each round
  reading at least one character (every repeated group of the program does).
\<close>

fun iter :: "nat \<Rightarrow> (mst \<Rightarrow> mst list) \<Rightarrow> mst \<Rightarrow> mst list" where
  "iter 0 f st = [st]"
| "iter (Suc n) f st =
     concat (map (\<lambda>st'. if length (fst (snd st')) < length (fst (snd st)) then iter n f st' else [])
               (f st)) @ [st]"

text \<open>
  \<open>ms r st\<close>: every way \<open>r\<close> matches at \<open>st\<close>, in the order in which the backtracking
  matcher tries them; the head is the match \<open>re\<close> reports.
\<close>

primrec ms :: "rx \<Rightarrow> mst \<Rightarrow> mst list" where
  "ms (Lit c) = (\<lambda>(p, s, g). case s of [] \<Rightarrow> [] | x # xs \<Rightarrow> if x = c then [(Some x, xs, g)] else [])"
| "ms (Cls P) = (\<lambda>(p, s, g). case s of [] \<Rightarrow> [] | x # xs \<Rightarrow> if P x then [(Some x, xs, g)] else [])"
| "ms (Many P lo hi greedy) = (\<lambda>(p, s, g).
     let cs = drop lo (case hi of None \<Rightarrow> runs P p s | Some h \<Rightarrow> take (Suc h) (runs P p s))
     in map (\<lambda>(p', s'). (p', s', g)) (if greedy then rev cs else cs))"
| "ms Eps = (\<lambda>st. [st])"
| "ms (Seq a b) = (\<lambda>st. concat (map (ms b) (ms a st)))"
| "ms (Alt a b) = (\<lambda>st. ms a st @ ms b st)"
| "ms (Opt a) = (\<lambda>st. ms a st @ [st])"
| "ms (Star a) = (\<lambda>st. iter (length (fst (snd st))) (ms a) st)"
| "ms (Grp n a) = (\<lambda>(p, s, g).
     map (\<lambda>(p', s', g'). (p', s', (n, take (length s - length s') s) # g')) (ms a (p, s, g)))"
| "ms Bos = (\<lambda>(p, s, g). if p = None then [(p, s, g)] else [])"
| "ms Eos = (\<lambda>(p, s, g). if s = [] \<or> s = [nl] then [(p, s, g)] else [])"
| "ms Bol = (\<lambda>(p, s, g). if p = None \<or> p = Some nl then [(p, s, g)] else [])"
| "ms Eol = (\<lambda>(p, s, g). if s = [] \<or> hd s = nl then [(p, s, g)] else [])"
| "ms (Ahead pos a) = (\<lambda>st. if (ms a st \<noteq> []) = pos then [st] else [])"
| "ms (Behind pos P) = (\<lambda>(p, s, g).
     if (case p of None \<Rightarrow> False | Some c \<Rightarrow> P c) = pos then [(p, s, g)] else [])"

definition seq :: "rx list \<Rightarrow> rx" where
  "seq rs = foldr Seq rs Eps"

definition lit :: "string \<Rightarrow> rx" where
  "lit s = seq (map Lit s)"

text \<open>In a replacement template \<open>\n\<close> of a group that took no part is the empty text.\<close>

definition grp_text :: "caps \<Rightarrow> nat \<Rightarrow> string" where
  "grp_text g n = (case map_of g n of None \<Rightarrow> [] | Some t \<Rightarrow> t)"

text \<open>
  The match of \<open>r\<close> that starts at the current position: the text matched (\<open>group(0)\<close>),
  the groups, and the state after it.
\<close>

definition match_at :: "rx \<Rightarrow> char option \<Rightarrow> string \<Rightarrow> (string \<times> caps \<times> char option \<times> string) option" where
  "match_at r p s =
     (case ms r (p, s, []) of
        [] \<Rightarrow> None
      | (p', s', g) # _ \<Rightarrow> Some (take (length s - length s') s, g, p', s'))"

text \<open>\<open>re.match(r, s)\<close>: a match at the start of \<open>s\<close>.\<close>

definition re_match :: "rx \<Rightarrow> string \<Rightarrow> (string \<times> caps) option" where
  "re_match r s = (case match_at r None s of None \<Rightarrow> None | Some (m, g, _, _) \<Rightarrow> Some (m, g))"

text \<open>
  The scan shared by \<open>re.sub\<close>, \<open>re.findall\<close> and \<open>re.search\<close>: from the left, the
  leftmost match is taken and the scan goes on behind it; where nothing matches one
  character is passed over. \<open>p\<close> is the character before the position. No pattern of
  the program matches the empty text; an empty match is passed over like no match.
\<close>

datatype piece = Keep char | Hit string caps

fun re_scan :: "rx \<Rightarrow> char option \<Rightarrow> string \<Rightarrow> piece list" where
  "re_scan r p [] = []"
| "re_scan r p (c # cs) =
     (case match_at r p (c # cs) of
        None \<Rightarrow> Keep c # re_scan r (Some c) cs
      | Some (m, g, p', s') \<Rightarrow>
          if length s' < Suc (length cs) then Hit m g # re_scan r p' s'
          else Keep c # re_scan r (Some c) cs)"

text \<open>\<open>re.sub(r, f, s)\<close> with a function \<open>f\<close> of the match (its text and groups).\<close>

definition re_sub :: "rx \<Rightarrow> (string \<Rightarrow> caps \<Rightarrow> string) \<Rightarrow> string \<Rightarrow> string" where
  "re_sub r f s = concat (map (\<lambda>pc. case pc of Keep c \<Rightarrow> [c] | Hit m g \<Rightarrow> f m g) (re_scan r None s))"

text \<open>
  \<open>re.sub\<close> with a function that reads and updates the converter: \<open>f\<close> is called on the
  matches from left to right, the state going from one call to the next.
\<close>

fun sub_pieces :: "('st \<Rightarrow> string \<Rightarrow> caps \<Rightarrow> 'st \<times> string) \<Rightarrow> 'st \<Rightarrow> piece list \<Rightarrow> 'st \<times> string" where
  "sub_pieces f st [] = (st, [])"
| "sub_pieces f st (Keep c # ps) = (case sub_pieces f st ps of (st', out) \<Rightarrow> (st', c # out))"
| "sub_pieces f st (Hit m g # ps) =
     (case f st m g of (st1, t) \<Rightarrow> (case sub_pieces f st1 ps of (st', out) \<Rightarrow> (st', t @ out)))"

definition re_sub_st :: "rx \<Rightarrow> ('st \<Rightarrow> string \<Rightarrow> caps \<Rightarrow> 'st \<times> string) \<Rightarrow> 'st \<Rightarrow> string \<Rightarrow> 'st \<times> string" where
  "re_sub_st r f st s = sub_pieces f st (re_scan r None s)"

text \<open>\<open>re.findall(r, s)\<close> for a pattern with one group: the texts of group 1.\<close>

definition re_findall :: "rx \<Rightarrow> string \<Rightarrow> string list" where
  "re_findall r s = concat (map (\<lambda>pc. case pc of Keep c \<Rightarrow> [] | Hit m g \<Rightarrow> [grp_text g 1]) (re_scan r None s))"

text \<open>\<open>re.search(r, s)\<close>: the first match of the scan.\<close>

definition re_search :: "rx \<Rightarrow> string \<Rightarrow> (string \<times> caps) option" where
  "re_search r s =
     (case concat (map (\<lambda>pc. case pc of Keep c \<Rightarrow> [] | Hit m g \<Rightarrow> [(m, g)]) (re_scan r None s)) of
        [] \<Rightarrow> None | x # _ \<Rightarrow> Some x)"

section \<open>Page names\<close>

text \<open>
  \<open>normalize_page_name\<close>:
  \<^verbatim>\<open>page_name = re.sub(r'[*`~]', '', page_name)\<close>,
  \<^verbatim>\<open>page_name = page_name.replace('/', '___')\<close>,
  \<^verbatim>\<open>page_name = re.sub(r'[<>:"|?*]', '', page_name)\<close>,
  \<^verbatim>\<open>return page_name.strip()\<close>.
\<close>

definition markup_char :: "char \<Rightarrow> bool" where
  "markup_char c = (c \<in> set [CHR ''*'', CHR 0x60, CHR ''~''])"

definition illegal_char :: "char \<Rightarrow> bool" where
  "illegal_char c = (c \<in> set [CHR ''<'', CHR ''>'', CHR '':'', CHR 0x22, CHR ''|'', CHR ''?'', CHR ''*''])"

definition normalize_page_name :: "string \<Rightarrow> string" where
  "normalize_page_name page_name =
     py_strip (re_sub (Cls illegal_char) (\<lambda>m g. [])
       (str_replace ''/'' ''___'' (re_sub (Cls markup_char) (\<lambda>m g. []) page_name)))"

section \<open>Lists to headings\<close>

text \<open>
  \<open>str.lower()\<close> and \<open>str.upper()\<close> on the letters of ASCII; the other characters are
  left as they are.
\<close>

definition ascii_lower :: "char \<Rightarrow> char" where
  "ascii_lower c =
     (case map_of (zip ''ABCDEFGHIJKLMNOPQRSTUVWXYZ'' ''abcdefghijklmnopqrstuvwxyz'') c of
        None \<Rightarrow> c | Some l \<Rightarrow> l)"

definition ascii_upper :: "char \<Rightarrow> char" where
  "ascii_upper c =
     (case map_of (zip ''abcdefghijklmnopqrstuvwxyz'' ''ABCDEFGHIJKLMNOPQRSTUVWXYZ'') c of
        None \<Rightarrow> c | Some u \<Rightarrow> u)"

text \<open>The \<open>task_states\<close> table of the converter.\<close>

definition task_states :: "(string \<times> string) list" where
  "task_states =
     [(''TODO'', ''TODO''), (''DONE'', ''DONE''), (''LATER'', ''LATER''), (''NOW'', ''TODO''),
      (''DOING'', ''DOING''), (''WAITING'', ''WAITING''), (''CANCELLED'', ''CANCELLED''),
      (''OVERDUE'', ''TODO'')]"

definition not_nl :: "char \<Rightarrow> bool" where
  "not_nl c = (c \<noteq> nl)"

text \<open>\<^verbatim>\<open>^(\s*)-\s+(.+)$\<close>\<close>

definition rx_list_item :: rx where
  "rx_list_item =
     seq [Bos, Grp 1 (Many py_space 0 None True), Lit CHR ''-'', Many py_space 1 None True,
          Grp 2 (Many not_nl 1 None True), Eos]"

text \<open>\<^verbatim>\<open>\[( |x|X)\]\s+(.+)\<close>\<close>

definition rx_checkbox :: rx where
  "rx_checkbox =
     seq [Lit CHR ''['', Grp 1 (Alt (Lit CHR '' '') (Alt (Lit CHR ''x'') (Lit CHR ''X''))),
          Lit CHR '']'', Many py_space 1 None True, Grp 2 (Many not_nl 1 None True)]"

text \<open>\<^verbatim>\<open>^(TODO|DONE|LATER|NOW|DOING|WAITING|CANCELLED|OVERDUE)\s+(.+)$\<close>\<close>

definition rx_task :: rx where
  "rx_task =
     seq [Bos,
          Grp 1 (Alt (lit ''TODO'') (Alt (lit ''DONE'') (Alt (lit ''LATER'') (Alt (lit ''NOW'')
            (Alt (lit ''DOING'') (Alt (lit ''WAITING'') (Alt (lit ''CANCELLED'') (lit ''OVERDUE'')))))))),
          Many py_space 1 None True, Grp 2 (Many not_nl 1 None True), Eos]"

text \<open>
  The heading made from the text of a list item, at a given level: the body of the loop
  of \<open>convert_hierarchical_structure\<close> from the check for checkboxes on.
\<close>

definition list_heading :: "nat \<Rightarrow> string \<Rightarrow> string" where
  "list_heading level text =
     (case re_match rx_checkbox text of
        Some (m, g) \<Rightarrow>
          (let state = grp_text g 1;
               task_text = grp_text g 2;
               org_state = (if map ascii_lower state = ''x'' then ''DONE'' else ''TODO'')
           in replicate level CHR ''*'' @ '' '' @ org_state @ '' '' @ task_text)
      | None \<Rightarrow>
          (case re_match rx_task text of
             Some (m, g) \<Rightarrow>
               (let logseq_state = grp_text g 1;
                    task_text = grp_text g 2;
                    org_state = (case map_of task_states logseq_state of
                                   None \<Rightarrow> ''TODO'' | Some t \<Rightarrow> t)
                in replicate level CHR ''*'' @ '' '' @ org_state @ '' '' @ task_text)
           | None \<Rightarrow> replicate level CHR ''*'' @ '' '' @ text))"

text \<open>One line of \<open>convert_hierarchical_structure\<close>.\<close>

definition convert_list_line :: "string \<Rightarrow> string" where
  "convert_list_line line =
     (case re_match rx_list_item line of
        Some (m, g) \<Rightarrow>
          (let indent_str = grp_text g 1;
               tab_count = count_list indent_str CHR 0x09 * 2;
               space_count = count_list indent_str CHR '' '';
               indent = tab_count + space_count;
               text = grp_text g 2;
               level = min (indent div 2 + 1) 6
           in list_heading level text)
      | None \<Rightarrow> line)"

definition convert_hierarchical_structure :: "string \<Rightarrow> string" where
  "convert_hierarchical_structure content =
     join_with [nl] (map convert_list_line (split_on nl content))"

section \<open>Notions used in the statements\<close>

text \<open>The character before the position after reading \<open>xs\<close> from a position with \<open>p\<close> before it.\<close>

definition lastc :: "char option \<Rightarrow> string \<Rightarrow> char option" where
  "lastc p xs = (if xs = [] then p else Some (last xs))"

text \<open>
  What follows a list dash, a checkbox or a task keyword: \<open>marked r\<close> says that \<open>r\<close> is
  one whitespace character and then at least one more character; \<open>after_ws r\<close> is \<open>r\<close>
  without its leading whitespace, or the last character of \<open>r\<close> when \<open>r\<close> is whitespace
  only.
\<close>

definition marked :: "string \<Rightarrow> bool" where
  "marked r = (case r of [] \<Rightarrow> False | s # r' \<Rightarrow> py_space s \<and> r' \<noteq> [])"

definition after_ws :: "string \<Rightarrow> string" where
  "after_ws r = (let t = dropWhile py_space r in if t = [] then [last r] else t)"

subsection \<open>The task rule\<close>

text \<open>
  The rule in the words of the claim: the text of a list item is checked, in this
  order, for a checkbox (\<open>[ ]\<close> gives TODO, \<open>[x]\<close> and \<open>[X]\<close> give DONE), then for a task
  keyword, spelled in capitals, with NOW and OVERDUE folded into TODO; otherwise the
  text has no state.
\<close>

definition spec_keywords :: "string list" where
  "spec_keywords = [''TODO'', ''DONE'', ''LATER'', ''NOW'', ''DOING'', ''WAITING'', ''CANCELLED'', ''OVERDUE'']"

definition spec_fold :: "string \<Rightarrow> string" where
  "spec_fold k = (if k = ''NOW'' \<or> k = ''OVERDUE'' then ''TODO'' else k)"

definition claimed_state :: "string \<Rightarrow> string option" where
  "claimed_state text =
     (if prefix ''[ ]'' text then Some ''TODO''
      else if prefix ''[x]'' text \<or> prefix ''[X]'' text then Some ''DONE''
      else map_option spec_fold (find (\<lambda>k. prefix k text) spec_keywords))"

text \<open>
  The amended rule: a checkbox or a keyword counts only when whitespace and further
  text follow it; the heading text is then the state, a space and that further text.
\<close>

definition spec_starts :: "string \<Rightarrow> string \<Rightarrow> bool" where
  "spec_starts k text = (prefix k text \<and> marked (drop (length k) text))"

definition spec_heading_text :: "string \<Rightarrow> string" where
  "spec_heading_text text =
     (if spec_starts ''[ ]'' text then ''TODO '' @ after_ws (drop 3 text)
      else if spec_starts ''[x]'' text \<or> spec_starts ''[X]'' text then ''DONE '' @ after_ws (drop 3 text)
      else (case find (\<lambda>k. spec_starts k text) spec_keywords of
              Some k \<Rightarrow> spec_fold k @ '' '' @ after_ws (drop (length k) text)
            | None \<Rightarrow> text))"

section \<open>The converter\<close>

text \<open>
  The fields of \<open>LogseqToOrgRoamConverter\<close> that the conversion reads and writes,
  together with the world it runs in:
  \<^item> \<open>rng k\<close> is the 32 hexadecimal digits of the value that the \<open>k\<close>-th call of
    \<open>uuid.uuid4()\<close> returns, and \<open>draws\<close> counts the calls made so far;
  \<^item> \<open>clock k\<close> is the formatted time at the \<open>k\<close>-th reading of \<open>datetime.now()\<close>;
  \<^item> \<open>accepts\<close> says for which file names a write to the output tree succeeds, and
    \<open>out_files\<close> is the output tree: folder and file name to content;
  \<^item> \<open>yaml\<close> is \<open>yaml.safe_load\<close> of the PyYAML library, which is not part of the
    program: it raises \<open>yaml.YAMLError\<close>, or another exception (\<open>ValueError\<close> for a date
    out of range), or returns a mapping, or returns another value;
  \<^item> \<open>rank\<close> gives the order in which Python walks the set \<open>missing_pages\<close>: names of
    lower rank come first, names of equal rank in the order of their insertion. The
    set itself is kept as a list without duplicates in the order of insertion.
  \<open>wide_files\<close> holds the names of the documents written whose text has a code point
  above 255; such a text is outside the model and \<open>out_files\<close> has no entry for it. The
  texts of log, warning and error messages are not modelled: \<open>errors\<close> and \<open>warnings\<close>
  list the names of the files concerned.
\<close>

text \<open>
  The values of a YAML document: a \<open>str\<close>; a list; another value that can be a key of a
  dictionary (number, boolean, date, \<open>bytes\<close>, \<open>None\<close>); a value that cannot (\<open>dict\<close>,
  \<open>set\<close>). The keys of a mapping: a \<open>str\<close>; a \<open>bytes\<close> value, which has a method
  \<open>upper\<close> as a \<open>str\<close> has; any other key, which has none.
\<close>

datatype pyval =
    PStr string                 \<comment> \<open>a \<open>str\<close>\<close>
  | PList "pyval list" string   \<comment> \<open>a \<open>list\<close>: its items, and the text \<open>str()\<close> gives for it\<close>
  | PAtom string bool           \<comment> \<open>a hashable value: the text \<open>str()\<close> gives, and its truth value\<close>
  | PDict string bool           \<comment> \<open>a \<open>dict\<close> or \<open>set\<close>: the text \<open>str()\<close> gives, and its truth value\<close>

datatype pykey =
    KStr string                 \<comment> \<open>a \<open>str\<close>\<close>
  | KBytes string string        \<comment> \<open>a \<open>bytes\<close> key \<open>k\<close>: the texts of \<open>str(k)\<close> and of \<open>str(k.upper())\<close>\<close>
  | KOther                      \<comment> \<open>a key without a method \<open>upper\<close> (number, boolean, date, \<open>None\<close>)\<close>

datatype yaml_result =
    YError                          \<comment> \<open>\<open>yaml.YAMLError\<close>\<close>
  | YRaise                          \<comment> \<open>another exception\<close>
  | YDict "(pykey \<times> pyval) list"    \<comment> \<open>a mapping: its items in their order\<close>
  | YOther                          \<comment> \<open>a value that is not a mapping\<close>

record conv =
  page_ids :: "string \<rightharpoonup> string"
  block_ids :: "string \<rightharpoonup> string"
  existing_pages :: "string set"
  missing_pages :: "string list"
  file_to_title :: "string \<rightharpoonup> string"
  files_processed :: nat
  missing_pages_created :: nat
  errors :: "string list"
  warnings :: "string list"
  rng :: "nat \<Rightarrow> string"
  draws :: nat
  clock :: "nat \<Rightarrow> string"
  ticks :: nat
  accepts :: "string \<times> string \<Rightarrow> bool"
  yaml :: "string \<Rightarrow> yaml_result"
  rank :: "string \<Rightarrow> nat"
  out_files :: "string \<times> string \<rightharpoonup> string"
  wide_files :: "(string \<times> string) set"

text \<open>The converter after \<open>__init__\<close>, in a given world.\<close>

definition init_conv ::
  "(nat \<Rightarrow> string) \<Rightarrow> (nat \<Rightarrow> string) \<Rightarrow> (string \<times> string \<Rightarrow> bool) \<Rightarrow> (string \<Rightarrow> yaml_result) \<Rightarrow>
   (string \<Rightarrow> nat) \<Rightarrow> conv" where
  "init_conv r c a y k =
     \<lparr>page_ids = Map.empty, block_ids = Map.empty, existing_pages = {}, missing_pages = [],
      file_to_title = Map.empty, files_processed = 0, missing_pages_created = 0,
      errors = [], warnings = [], rng = r, draws = 0, clock = c, ticks = 0,
      accepts = a, yaml = y, rank = k, out_files = Map.empty, wide_files = {}\<rparr>"

text \<open>\<open>str(uuid)\<close>: the hexadecimal digits in groups of 8, 4, 4, 4 and 12.\<close>

definition uuid_str :: "string \<Rightarrow> string" where
  "uuid_str h =
     take 8 h @ ''-'' @ take 4 (drop 8 h) @ ''-'' @ take 4 (drop 12 h) @ ''-'' @
     take 4 (drop 16 h) @ ''-'' @ take 12 (drop 20 h)"

text \<open>\<open>generate_uuid\<close>: \<open>str(uuid.uuid4())\<close>.\<close>

definition generate_uuid :: "conv \<Rightarrow> conv \<times> string" where
  "generate_uuid st = (st\<lparr>draws := draws st + 1\<rparr>, uuid_str (rng st (draws st)))"

text \<open>\<open>uuid.uuid4().hex[:8]\<close>.\<close>

definition uuid_hex8 :: "conv \<Rightarrow> conv \<times> string" where
  "uuid_hex8 st = (st\<lparr>draws := draws st + 1\<rparr>, take 8 (rng st (draws st)))"

text \<open>\<open>missing_pages.add(name)\<close>.\<close>

definition add_missing :: "string \<Rightarrow> conv \<Rightarrow> conv" where
  "add_missing name st =
     (if name \<in> set (missing_pages st) then st
      else st\<lparr>missing_pages := missing_pages st @ [name]\<rparr>)"

subsection \<open>Double-bracket links\<close>

definition not_rbracket :: "char \<Rightarrow> bool" where
  "not_rbracket c = (c \<noteq> CHR '']'')"

text \<open>\<^verbatim>\<open>\[\[([^\]]+?)\]\]\<close>\<close>

definition rx_double_link :: rx where
  "rx_double_link = seq [lit ''[['', Grp 1 (Many not_rbracket 1 None False), lit '']]'']"

text \<open>\<^verbatim>\<open>\[\[([^\]]+?)\]\](?!\])\<close>\<close>

definition rx_double_link_strict :: rx where
  "rx_double_link_strict =
     seq [lit ''[['', Grp 1 (Many not_rbracket 1 None False), lit '']]'', Ahead False (Lit CHR '']'')]"

text \<open>\<open>link_text.split('|', 1)\<close> when \<open>'|' in link_text\<close>: the text before the first bar and the text after it.\<close>

definition split_bar :: "string \<Rightarrow> string \<times> string" where
  "split_bar s = (takeWhile (\<lambda>c. c \<noteq> CHR ''|'') s, drop 1 (dropWhile (\<lambda>c. c \<noteq> CHR ''|'') s))"

text \<open>\<open>replace_link\<close> of \<open>convert_double_links\<close>.\<close>

definition replace_link :: "conv \<Rightarrow> string \<Rightarrow> caps \<Rightarrow> conv \<times> string" where
  "replace_link st m g =
     (let link_text = grp_text g 1;
          (page_name, alias) =
            (if CHR ''|'' \<in> set link_text
             then (py_strip (fst (split_bar link_text)), py_strip (snd (split_bar link_text)))
             else (py_strip link_text, py_strip link_text));
          normalized_name = normalize_page_name page_name;
          (st', page_id) =
            (case page_ids st normalized_name of
               Some i \<Rightarrow> (st, i)
             | None \<Rightarrow>
                 (let (st1, i) = generate_uuid st
                  in (add_missing normalized_name (st1\<lparr>page_ids := (page_ids st1)(normalized_name \<mapsto> i)\<rparr>), i)))
      in (st', ''[[id:'' @ page_id @ ''][''  @ alias @ '']]''))"

definition convert_double_links :: "conv \<Rightarrow> string \<Rightarrow> conv \<times> string" where
  "convert_double_links st content =
     (let (st1, c1) = re_sub_st rx_double_link replace_link st content
      in re_sub_st rx_double_link_strict replace_link st1 c1)"

subsection \<open>Block references and embeds\<close>

definition not_rparen :: "char \<Rightarrow> bool" where
  "not_rparen c = (c \<noteq> CHR '')'')"

text \<open>\<^verbatim>\<open>\(\(([^)]+?)\)\)\<close>\<close>

definition rx_block_ref :: rx where
  "rx_block_ref = seq [lit ''(('', Grp 1 (Many not_rparen 1 None False), lit ''))'']"

text \<open>The identifier of a block reference, made when it has none yet.\<close>

definition block_id_of :: "conv \<Rightarrow> string \<Rightarrow> conv \<times> string" where
  "block_id_of st block_ref =
     (case block_ids st block_ref of
        Some i \<Rightarrow> (st, i)
      | None \<Rightarrow>
          (let (st1, i) = generate_uuid st
           in (st1\<lparr>block_ids := (block_ids st1)(block_ref \<mapsto> i)\<rparr>, i)))"

definition replace_block_ref :: "conv \<Rightarrow> string \<Rightarrow> caps \<Rightarrow> conv \<times> string" where
  "replace_block_ref st m g =
     (let (st', i) = block_id_of st (grp_text g 1) in (st', ''[[id:'' @ i @ '']]''))"

definition convert_block_references :: "conv \<Rightarrow> string \<Rightarrow> conv \<times> string" where
  "convert_block_references st content = re_sub_st rx_block_ref replace_block_ref st content"

text \<open>A literal letter under \<open>re.IGNORECASE\<close>, and a literal text of such letters.\<close>

definition LitI :: "char \<Rightarrow> rx" where
  "LitI c = Cls (\<lambda>x. ascii_lower x = ascii_lower c)"

definition litI :: "string \<Rightarrow> rx" where
  "litI s = seq (map LitI s)"

definition not_rbrace :: "char \<Rightarrow> bool" where
  "not_rbrace c = (c \<noteq> CHR ''}'')"

text \<open>\<^verbatim>\<open>{{embed\s+([^}]+?)}}\<close> with \<open>re.IGNORECASE\<close>\<close>

definition rx_embed :: rx where
  "rx_embed =
     seq [lit ''{{'', litI ''embed'', Many py_space 1 None True,
          Grp 1 (Many not_rbrace 1 None False), lit ''}}'']"

definition replace_embed :: "conv \<Rightarrow> string \<Rightarrow> caps \<Rightarrow> conv \<times> string" where
  "replace_embed st m g =
     (let embed_content = grp_text g 1 in
      case re_search rx_double_link embed_content of
        Some (pm, pg) \<Rightarrow>
          (st, ''#+INCLUDE: '' @ [CHR 0x22] @ normalize_page_name (grp_text pg 1) @ ''.org'' @ [CHR 0x22])
      | None \<Rightarrow>
          (case re_search rx_block_ref embed_content of
             Some (bm, bg) \<Rightarrow>
               (let (st', i) = block_id_of st (grp_text bg 1)
                in (st', ''#+INCLUDE: '' @ [CHR 0x22] @ ''[[id:'' @ i @ '']]'' @ [CHR 0x22]))
           | None \<Rightarrow> (st, m)))"

definition convert_block_embeddings :: "conv \<Rightarrow> string \<Rightarrow> conv \<times> string" where
  "convert_block_embeddings st content = re_sub_st rx_embed replace_embed st content"

subsection \<open>Markdown to Org\<close>

text \<open>A number in decimal, as an f-string prints it.\<close>

function show_nat :: "nat \<Rightarrow> string" where
  "show_nat n =
     (if n < 10 then [''0123456789'' ! n]
      else show_nat (n div 10) @ [''0123456789'' ! (n mod 10)])"
  by pat_completeness auto
termination
  by (relation "measure id") auto

declare show_nat.simps [simp del]

definition any_char :: "char \<Rightarrow> bool" where
  "any_char c = True"

definition is_char :: "char \<Rightarrow> char \<Rightarrow> bool" where
  "is_char a c = (c = a)"

text \<open>
  \<open>preserve_org\<close>: the match is put at the end of \<open>org_elements\<close> and replaced by a
  placeholder with its index.
\<close>

definition preserve_org :: "string list \<Rightarrow> string \<Rightarrow> caps \<Rightarrow> string list \<times> string" where
  "preserve_org org_elements m g =
     (org_elements @ [m], ''__ORG_ELEMENT_'' @ show_nat (length org_elements) @ ''__'')"

text \<open>\<^verbatim>\<open>\[\[id:[^\]]+\]\[[^\]]+\]\]\<close>\<close>

definition rx_org_link :: rx where
  "rx_org_link =
     seq [lit ''[[id:'', Many not_rbracket 1 None True, lit ''][''  , Many not_rbracket 1 None True,
          lit '']]'']"

text \<open>\<^verbatim>\<open>^\*+\s+.*$\<close> with MULTILINE\<close>

definition rx_org_heading :: rx where
  "rx_org_heading =
     seq [Bol, Many (is_char CHR ''*'') 1 None True, Many py_space 1 None True,
          Many not_nl 0 None True, Eol]"

text \<open>\<^verbatim>\<open>^(#{1,6})\s+(.+)$\<close> with MULTILINE\<close>

definition rx_md_header :: rx where
  "rx_md_header =
     seq [Bol, Grp 1 (Many (is_char CHR ''#'') 1 (Some 6) True), Many py_space 1 None True,
          Grp 2 (Many not_nl 1 None True), Eol]"

text \<open>\<^verbatim>\<open>^---+$\<close> with MULTILINE\<close>

definition rx_hrule :: rx where
  "rx_hrule = seq [Bol, lit ''--'', Many (is_char CHR ''-'') 1 None True, Eol]"

text \<open>\<^verbatim>\<open>^```(\w+)?\n(.*?)\n```$\<close> with MULTILINE and DOTALL\<close>

definition rx_code_block :: rx where
  "rx_code_block =
     seq [Bol, lit [CHR 0x60, CHR 0x60, CHR 0x60], Opt (Grp 1 (Many py_word 1 None True)), Lit nl,
          Grp 2 (Many any_char 0 None False), Lit nl, lit [CHR 0x60, CHR 0x60, CHR 0x60], Eol]"

text \<open>\<^verbatim>\<open>^>\s*(.+)(?:\n^>\s*(.+))*\<close> with MULTILINE\<close>

definition rx_quote :: rx where
  "rx_quote =
     seq [Bol, Lit CHR ''>'', Many py_space 0 None True, Grp 1 (Many not_nl 1 None True),
          Star (seq [Lit nl, Bol, Lit CHR ''>'', Many py_space 0 None True,
                     Grp 2 (Many not_nl 1 None True)])]"

text \<open>\<^verbatim>\<open>`([^`\n]+?)`\<close>\<close>

definition rx_inline_code :: rx where
  "rx_inline_code =
     seq [Lit CHR 0x60, Grp 1 (Many (\<lambda>c. c \<noteq> CHR 0x60 \<and> c \<noteq> nl) 1 None False), Lit CHR 0x60]"

text \<open>\<^verbatim>\<open>\*\*([\s\S]+?)\*\*\<close> and \<^verbatim>\<open>__([\s\S]+?)__\<close>\<close>

definition rx_bold_star :: rx where
  "rx_bold_star = seq [lit ''**'', Grp 1 (Many any_char 1 None False), lit ''**'']"

definition rx_bold_under :: rx where
  "rx_bold_under = seq [lit ''__'', Grp 1 (Many any_char 1 None False), lit ''__'']"

text \<open>\<^verbatim>\<open>(?<!\*)\*([\s\S]+?)\*(?!\*)\<close>\<close>

definition rx_italic_star :: rx where
  "rx_italic_star =
     seq [Behind False (is_char CHR ''*''), Lit CHR ''*'', Grp 1 (Many any_char 1 None False),
          Lit CHR ''*'', Ahead False (Lit CHR ''*'')]"

text \<open>\<^verbatim>\<open>(?<![a-zA-Z0-9_])_([\s\S]+?)_(?![a-zA-Z0-9_])\<close>\<close>

definition rx_italic_under :: rx where
  "rx_italic_under =
     seq [Behind False ascii_word, Lit CHR ''_'', Grp 1 (Many any_char 1 None False),
          Lit CHR ''_'', Ahead False (Cls ascii_word)]"

text \<open>\<^verbatim>\<open>~~([^~\n]+?)~~\<close>\<close>

definition rx_strike :: rx where
  "rx_strike =
     seq [lit ''~~'', Grp 1 (Many (\<lambda>c. c \<noteq> CHR ''~'' \<and> c \<noteq> nl) 1 None False), lit ''~~'']"

text \<open>\<^verbatim>\<open>(?<!\[)\[([^\]]+?)\]\(([^)]+?)\)\<close>\<close>

definition rx_md_link :: rx where
  "rx_md_link =
     seq [Behind False (is_char CHR ''[''), Lit CHR ''['', Grp 1 (Many not_rbracket 1 None False),
          Lit CHR '']'', Lit CHR ''('', Grp 2 (Many not_rparen 1 None False), Lit CHR '')'']"

text \<open>The link token, \<^verbatim>\<open>\[(.*?)\]\[(.*?)\]\<close> and the link token again.\<close>

definition rx_link_token :: "string \<Rightarrow> rx" where
  "rx_link_token tok =
     seq [lit tok, Lit CHR ''['', Grp 1 (Many not_nl 0 None False), Lit CHR '']'', Lit CHR ''['',
          Grp 2 (Many not_nl 0 None False), Lit CHR '']'', lit tok]"

text \<open>\<open>convert_tables\<close>: \<^verbatim>\<open>^\|.*\|$\<close> for a row, \<^verbatim>\<open>^\|[-\s|:]+\|$\<close> for a separator.\<close>

definition rx_table_row :: rx where
  "rx_table_row = seq [Bos, Lit CHR ''|'', Many not_nl 0 None True, Lit CHR ''|'', Eos]"

definition rx_table_sep :: rx where
  "rx_table_sep =
     seq [Bos, Lit CHR ''|'',
          Many (\<lambda>c. c = CHR ''-'' \<or> py_space c \<or> c = CHR ''|'' \<or> c = CHR '':'') 1 None True,
          Lit CHR ''|'', Eos]"

text \<open>\<open>xs[1:-1]\<close>\<close>

definition inner :: "'a list \<Rightarrow> 'a list" where
  "inner xs = butlast (drop 1 xs)"

text \<open>
  The loop of \<open>convert_tables\<close> over the lines from index \<open>i\<close> on; \<open>in_table\<close> is the flag
  of the source (it does not change what is appended).
\<close>

fun tables_loop :: "bool \<Rightarrow> string list \<Rightarrow> string list" where
  "tables_loop in_table [] = []"
| "tables_loop in_table (original_line # rest) =
     (let stripped_line = py_strip original_line in
      if re_match rx_table_row stripped_line \<noteq> None then
        (let cells = map py_strip (inner (split_on CHR ''|'' stripped_line));
             row = ''| '' @ join_with '' | '' cells @ '' |''
         in case rest of
              [] \<Rightarrow> [row]
            | next_line # rest' \<Rightarrow>
                if re_match rx_table_sep (py_strip next_line) \<noteq> None
                then row # (''|'' @ replicate (length stripped_line - 2) CHR ''-'' @ ''|'')
                       # tables_loop True rest'
                else row # tables_loop True rest)
      else if in_table \<and> re_match rx_table_row stripped_line = None
        then original_line # tables_loop False rest
      else original_line # tables_loop in_table rest)"

definition convert_tables :: "string \<Rightarrow> string" where
  "convert_tables content = join_with [nl] (tables_loop False (split_on nl content))"

text \<open>The restoring loop at the end of \<open>convert_markdown_to_org\<close>, from index \<open>i\<close> on.\<close>

fun restore_org :: "nat \<Rightarrow> string list \<Rightarrow> string \<Rightarrow> string" where
  "restore_org i [] content = content"
| "restore_org i (element # rest) content =
     restore_org (Suc i) rest (str_replace (''__ORG_ELEMENT_'' @ show_nat i @ ''__'') element content)"

text \<open>The five temporary tokens, in the order of the dictionary: five draws.\<close>

definition temp_tokens :: "conv \<Rightarrow> conv \<times> string \<times> string \<times> string \<times> string \<times> string" where
  "temp_tokens st =
     (let (st1, h1) = uuid_hex8 st; (st2, h2) = uuid_hex8 st1; (st3, h3) = uuid_hex8 st2;
          (st4, h4) = uuid_hex8 st3; (st5, h5) = uuid_hex8 st4
      in (st5, ''##TEMP_CODE_'' @ h1 @ ''##'', ''##TEMP_BOLD_'' @ h2 @ ''##'',
          ''##TEMP_ITALIC_'' @ h3 @ ''##'', ''##TEMP_STRIKE_'' @ h4 @ ''##'',
          ''##TEMP_LINK_'' @ h5 @ ''##''))"

text \<open>The rewriting of \<open>convert_markdown_to_org\<close> with given tokens.\<close>

definition markdown_with :: "string \<times> string \<times> string \<times> string \<times> string \<Rightarrow> string \<Rightarrow> string" where
  "markdown_with toks content0 =
     (let (t_code, t_bold, t_italic, t_strike, t_link) = toks;
          (els1, c1) = re_sub_st rx_org_link preserve_org [] content0;
          (org_elements, c2) = re_sub_st rx_org_heading preserve_org els1 c1;
          c3 = re_sub rx_md_header
                 (\<lambda>m g. replicate (length (grp_text g 1)) CHR ''*'' @ '' '' @ grp_text g 2) c2;
          c4 = re_sub rx_hrule (\<lambda>m g. ''-----'') c3;
          c5 = re_sub rx_code_block
                 (\<lambda>m g. ''#+BEGIN_SRC '' @ grp_text g 1 @ [nl] @ grp_text g 2 @ [nl] @ ''#+END_SRC'') c4;
          c6 = re_sub rx_quote
                 (\<lambda>m g. ''#+BEGIN_QUOTE'' @ [nl] @ str_replace ''>'' [] (str_replace ''> '' [] m)
                          @ [nl] @ ''#+END_QUOTE'') c5;
          c7 = re_sub rx_inline_code (\<lambda>m g. t_code @ grp_text g 1 @ t_code) c6;
          c8 = re_sub rx_bold_star (\<lambda>m g. t_bold @ grp_text g 1 @ t_bold) c7;
          c9 = re_sub rx_bold_under (\<lambda>m g. t_bold @ grp_text g 1 @ t_bold) c8;
          c10 = re_sub rx_italic_star (\<lambda>m g. t_italic @ grp_text g 1 @ t_italic) c9;
          c11 = re_sub rx_italic_under (\<lambda>m g. t_italic @ grp_text g 1 @ t_italic) c10;
          c12 = re_sub rx_strike (\<lambda>m g. t_strike @ grp_text g 1 @ t_strike) c11;
          c13 = re_sub rx_md_link
                  (\<lambda>m g. t_link @ ''['' @ grp_text g 2 @ ''][''  @ grp_text g 1 @ '']'' @ t_link) c12;
          c14 = convert_tables c13;
          c15 = str_replace t_code ''='' c14;
          c16 = str_replace t_bold ''*'' c15;
          c17 = str_replace t_italic ''/'' c16;
          c18 = str_replace t_strike ''+'' c17;
          c19 = re_sub (rx_link_token t_link)
                  (\<lambda>m g. ''[['' @ grp_text g 1 @ ''][''  @ grp_text g 2 @ '']]'') c18
      in restore_org 0 org_elements c19)"

definition convert_markdown_to_org :: "conv \<Rightarrow> string \<Rightarrow> conv \<times> string" where
  "convert_markdown_to_org st content =
     (let (st', toks) = temp_tokens st in (st', markdown_with toks content))"

text \<open>\<open>convert_tasks\<close> returns its argument.\<close>

definition convert_tasks :: "string \<Rightarrow> string" where
  "convert_tasks content = content"

subsection \<open>Asset paths\<close>

text \<open>
  \<^verbatim>\<open>!\[(.*?)\]\(\.\./assets/([^)]+?)\)\<close>, \<^verbatim>\<open>!\[(.*?)\]\(assets/([^)]+?)\)\<close> and the
  same two without the exclamation mark.
\<close>

definition rx_asset :: "string \<Rightarrow> string \<Rightarrow> rx" where
  "rx_asset bang dir =
     seq [lit bang, Lit CHR ''['', Grp 1 (Many not_nl 0 None False), Lit CHR '']'', Lit CHR ''('',
          lit dir, Grp 2 (Many not_rparen 1 None False), Lit CHR '')'']"

definition asset_repl :: "string \<Rightarrow> string \<Rightarrow> caps \<Rightarrow> string" where
  "asset_repl bang m g = bang @ ''['' @ grp_text g 1 @ ''](../assets/'' @ grp_text g 2 @ '')''"

definition update_asset_paths :: "string \<Rightarrow> string" where
  "update_asset_paths content =
     (let c1 = re_sub (rx_asset ''!'' ''../assets/'') (asset_repl ''!'') content;
          c2 = re_sub (rx_asset ''!'' ''assets/'') (asset_repl ''!'') c1;
          c3 = re_sub (rx_asset [] ''../assets/'') (asset_repl []) c2
      in re_sub (rx_asset [] ''assets/'') (asset_repl []) c3)"

subsection \<open>Properties and the header\<close>

text \<open>\<open>d[k] = v\<close> on a dictionary kept as a list in the order of insertion.\<close>

fun dict_set :: "'k \<Rightarrow> 'v \<Rightarrow> ('k \<times> 'v) list \<Rightarrow> ('k \<times> 'v) list" where
  "dict_set k v [] = [(k, v)]"
| "dict_set k v ((k', v') # d) = (if k' = k then (k, v) # d else (k', v') # dict_set k v d)"

text \<open>\<open>str(v)\<close> and the truth value of \<open>v\<close>.\<close>

fun py_str :: "pyval \<Rightarrow> string" where
  "py_str (PStr s) = s"
| "py_str (PList items s) = s"
| "py_str (PAtom s b) = s"
| "py_str (PDict s b) = s"

fun truthy :: "pyval \<Rightarrow> bool" where
  "truthy (PStr s) = (s \<noteq> [])"
| "truthy (PList items s) = (items \<noteq> [])"
| "truthy (PAtom s b) = b"
| "truthy (PDict s b) = b"

text \<open>Whether a value can be a key of a dictionary.\<close>

fun hashable :: "pyval \<Rightarrow> bool" where
  "hashable (PStr s) = True"
| "hashable (PList items s) = False"
| "hashable (PAtom s b) = True"
| "hashable (PDict s b) = False"

text \<open>
  \<open>str.upper()\<close> on code points up to 255. The upper-case forms of \<open>0xB5\<close> and \<open>0xFF\<close> are
  the code points 924 and 376, which lie outside the model: for them, and for a text
  that holds one of them, the result is \<open>None\<close>.
\<close>

definition py_upper_char :: "char \<Rightarrow> string option" where
  "py_upper_char c =
     (if c = CHR 0xB5 \<or> c = CHR 0xFF then None
      else if c = CHR 0xDF then Some ''SS''
      else case map_of (zip
          (''abcdefghijklmnopqrstuvwxyz'' @
           [CHR 0xE0, CHR 0xE1, CHR 0xE2, CHR 0xE3, CHR 0xE4, CHR 0xE5, CHR 0xE6, CHR 0xE7,
            CHR 0xE8, CHR 0xE9, CHR 0xEA, CHR 0xEB, CHR 0xEC, CHR 0xED, CHR 0xEE, CHR 0xEF,
            CHR 0xF0, CHR 0xF1, CHR 0xF2, CHR 0xF3, CHR 0xF4, CHR 0xF5, CHR 0xF6,
            CHR 0xF8, CHR 0xF9, CHR 0xFA, CHR 0xFB, CHR 0xFC, CHR 0xFD, CHR 0xFE])
          (''ABCDEFGHIJKLMNOPQRSTUVWXYZ'' @
           [CHR 0xC0, CHR 0xC1, CHR 0xC2, CHR 0xC3, CHR 0xC4, CHR 0xC5, CHR 0xC6, CHR 0xC7,
            CHR 0xC8, CHR 0xC9, CHR 0xCA, CHR 0xCB, CHR 0xCC, CHR 0xCD, CHR 0xCE, CHR 0xCF,
            CHR 0xD0, CHR 0xD1, CHR 0xD2, CHR 0xD3, CHR 0xD4, CHR 0xD5, CHR 0xD6,
            CHR 0xD8, CHR 0xD9, CHR 0xDA, CHR 0xDB, CHR 0xDC, CHR 0xDD, CHR 0xDE])) c of
        None \<Rightarrow> Some [c] | Some u \<Rightarrow> Some [u])"

definition py_upper :: "string \<Rightarrow> string option" where
  "py_upper s = map_option concat (those (map py_upper_char s))"

text \<open>\<^verbatim>\<open>^---\n(.*?)\n---\n(.*)$\<close> with DOTALL\<close>

definition rx_front_matter :: rx where
  "rx_front_matter =
     seq [Bos, lit (''---'' @ [nl]), Grp 1 (Many any_char 0 None False), lit ([nl] @ ''---'' @ [nl]),
          Grp 2 (Many any_char 0 None True), Eos]"

text \<open>\<^verbatim>\<open>^(\w+)::\s*(.+)$\<close> with MULTILINE\<close>

definition rx_inline_prop :: rx where
  "rx_inline_prop =
     seq [Bol, Grp 1 (Many py_word 1 None True), lit ''::'', Many py_space 0 None True,
          Grp 2 (Many not_nl 1 None True), Eol]"

text \<open>\<^verbatim>\<open>\n\s*\n\s*\n\<close>\<close>

definition rx_blank_lines :: rx where
  "rx_blank_lines =
     seq [Lit nl, Many py_space 0 None True, Lit nl, Many py_space 0 None True, Lit nl]"

text \<open>The matches of a scan, with their groups.\<close>

definition re_finditer :: "rx \<Rightarrow> string \<Rightarrow> (string \<times> caps) list" where
  "re_finditer r s =
     concat (map (\<lambda>pc. case pc of Keep c \<Rightarrow> [] | Hit m g \<Rightarrow> [(m, g)]) (re_scan r None s))"

text \<open>
  \<open>extract_properties\<close>. Only \<open>yaml.YAMLError\<close> is caught; another exception of the
  parser leaves the function, which is the result \<open>None\<close> here.
\<close>

definition extract_properties :: "conv \<Rightarrow> string \<Rightarrow> (conv \<times> (pykey \<times> pyval) list \<times> string) option" where
  "extract_properties st content0 =
     (case (case re_match rx_front_matter content0 of
              None \<Rightarrow> Some (st, [], content0)
            | Some (m, g) \<Rightarrow>
                (case yaml st (grp_text g 1) of
                   YError \<Rightarrow> Some (st\<lparr>warnings := warnings st @ [''YAML frontmatter'']\<rparr>, [], content0)
                 | YRaise \<Rightarrow> None
                 | YDict kvs \<Rightarrow> Some (st, foldl (\<lambda>d (k, v). dict_set k v d) [] kvs, grp_text g 2)
                 | YOther \<Rightarrow> Some (st, [], grp_text g 2))) of
        None \<Rightarrow> None
      | Some (st1, properties1, content1) \<Rightarrow>
          (let inline_props = re_finditer rx_inline_prop content1;
               properties = foldl (\<lambda>d (m, g). dict_set (KStr (grp_text g 1)) (PStr (grp_text g 2)) d)
                              properties1 inline_props;
               content2 = re_sub rx_inline_prop (\<lambda>m g. []) content1;
               content3 = re_sub rx_blank_lines (\<lambda>m g. [nl, nl]) content2
           in Some (st1, properties, content3)))"

text \<open>
  What a step that builds text comes to: an exception, a text with a code point above
  255, or a text of the model.
\<close>

datatype outcome = Raises | Beyond | Text string

text \<open>
  The line of the header for one property: nothing for the keys whose upper-case form
  is \<open>ID\<close> or \<open>TITLE\<close>. \<open>key.upper()\<close> raises \<open>AttributeError\<close> for a key that has no
  such method.
\<close>

definition prop_line :: "pykey \<times> pyval \<Rightarrow> outcome" where
  "prop_line kv =
     (case fst kv of
        KStr k \<Rightarrow>
          (case py_upper k of
             None \<Rightarrow> Beyond
           | Some u \<Rightarrow> Text (if u \<in> set [''ID'', ''TITLE''] then []
                             else '':'' @ u @ '': '' @ py_str (snd kv) @ [nl]))
      | KBytes r u \<Rightarrow> Text ('':'' @ u @ '': '' @ py_str (snd kv) @ [nl])
      | KOther \<Rightarrow> Raises)"

text \<open>
  The lines of a loop put together: an exception in one round ends the loop, whatever
  the other rounds give.
\<close>

definition gather :: "outcome list \<Rightarrow> outcome" where
  "gather os =
     (if Raises \<in> set os then Raises
      else if Beyond \<in> set os then Beyond
      else Text (concat (map (\<lambda>x. case x of Text t \<Rightarrow> t | _ \<Rightarrow> []) os)))"

text \<open>
  \<open>create_org_header\<close>. \<open>page_ids.get(title, self.generate_uuid())\<close> draws the identifier
  before it looks the title up; a title that cannot be a dictionary key makes the lookup
  raise \<open>TypeError\<close>.
\<close>

definition create_org_header :: "conv \<Rightarrow> pyval \<Rightarrow> (pykey \<times> pyval) list \<Rightarrow> conv \<times> outcome" where
  "create_org_header st title properties =
     (let (st1, fresh) = generate_uuid st in
      if \<not> hashable title then (st1, Raises)
      else
        (let page_id = (case title of
                          PStr t \<Rightarrow> (case page_ids st1 t of Some i \<Rightarrow> i | None \<Rightarrow> fresh)
                        | _ \<Rightarrow> fresh);
             header1 = '':PROPERTIES:'' @ [nl] @ '':ID: '' @ page_id @ [nl]
         in case gather (map prop_line properties) of
              Raises \<Rightarrow> (st1, Raises)
            | Beyond \<Rightarrow> (st1, Beyond)
            | Text lines \<Rightarrow>
                (let header2 = header1 @ lines;
                     header3 = header2 @ '':END:'' @ [nl] @ ''#+TITLE: '' @ py_str title @ [nl];
                     header4 =
                       (case map_of properties (KStr ''tags'') of
                          None \<Rightarrow> header3
                        | Some tags \<Rightarrow>
                            header3 @ ''#+FILETAGS: '' @
                              (case tags of
                                 PList items s \<Rightarrow> join_with '' '' (map (\<lambda>t. '':'' @ py_str t @ '':'') items)
                               | PStr s \<Rightarrow> if prefix '':'' s then s else '':'' @ s @ '':''
                               | _ \<Rightarrow> py_str tags) @ [nl])
                 in (st1, Text (header4 @ [nl])))))"

subsection \<open>One file\<close>

text \<open>\<^verbatim>\<open>(^(\*)+[ ])\|(.*)\<close> with MULTILINE\<close>

definition rx_table_fix :: rx where
  "rx_table_fix =
     seq [Grp 1 (seq [Bol, Grp 2 (Lit CHR ''*''), Star (Grp 2 (Lit CHR ''*'')), Lit CHR '' '']),
          Lit CHR ''|'', Grp 3 (Many not_nl 0 None True)]"

text \<open>\<^verbatim>\<open>(\d\d\d\d)_(\d\d)_(\d\d)\<close>\<close>

definition rx_date :: rx where
  "rx_date =
     seq [Grp 1 (seq [Cls py_digit, Cls py_digit, Cls py_digit, Cls py_digit]), Lit CHR ''_'',
          Grp 2 (seq [Cls py_digit, Cls py_digit]), Lit CHR ''_'',
          Grp 3 (seq [Cls py_digit, Cls py_digit])]"

definition dash_dates :: "string \<Rightarrow> string" where
  "dash_dates s =
     re_sub rx_date (\<lambda>m g. grp_text g 1 @ ''-'' @ grp_text g 2 @ ''-'' @ grp_text g 3) s"

text \<open>
  The rewriting steps of \<open>convert_file\<close> between \<open>extract_properties\<close> and
  \<open>create_org_header\<close>.
\<close>

definition convert_content :: "conv \<Rightarrow> string \<Rightarrow> conv \<times> string" where
  "convert_content st content0 =
     (let (st1, c1) = convert_markdown_to_org st content0;
          c2 = convert_tasks c1;
          c3 = convert_hierarchical_structure c2;
          (st2, c4) = convert_double_links st1 c3;
          (st3, c5) = convert_block_references st2 c4;
          (st4, c6) = convert_block_embeddings st3 c5
      in (st4, update_asset_paths c6))"

text \<open>The title \<open>convert_file\<close> chooses for the file with the given stem.\<close>

definition choose_title :: "conv \<Rightarrow> string \<Rightarrow> (pykey \<times> pyval) list \<Rightarrow> pyval" where
  "choose_title st stem properties =
     (let fallback = PStr (case file_to_title st stem of Some t \<Rightarrow> t | None \<Rightarrow> stem)
      in case map_of properties (KStr ''title'') of
           None \<Rightarrow> fallback
         | Some v \<Rightarrow> if truthy v then v else fallback)"

text \<open>
  \<open>convert_file\<close> for the file \<open>(stem, content)\<close> of a folder, written under \<open>out_name\<close> in
  the same folder of the output tree. A file that cannot be read has no content; every
  exception ends the conversion of the file with an entry in \<open>errors\<close>.
\<close>

definition convert_file :: "conv \<Rightarrow> string \<Rightarrow> string \<times> string option \<Rightarrow> string \<Rightarrow> conv" where
  "convert_file st folder file out_name =
     (case snd file of
        None \<Rightarrow> st\<lparr>errors := errors st @ [fst file]\<rparr>
      | Some content0 \<Rightarrow>
          (case extract_properties st content0 of
             None \<Rightarrow> st\<lparr>errors := errors st @ [fst file]\<rparr>
           | Some (st1, properties, content1) \<Rightarrow>
               (let title = choose_title st1 (fst file) properties;
                    (st2, content2) = convert_content st1 content1;
                    (st3, header) = create_org_header st2 title properties
                in case header of
                     Raises \<Rightarrow> st3\<lparr>errors := errors st3 @ [fst file]\<rparr>
                   | Beyond \<Rightarrow>
                       if accepts st3 (folder, out_name)
                       then st3\<lparr>out_files := (out_files st3)((folder, out_name) := None),
                                wide_files := insert (folder, out_name) (wide_files st3),
                                files_processed := files_processed st3 + 1\<rparr>
                       else st3\<lparr>errors := errors st3 @ [fst file]\<rparr>
                   | Text h \<Rightarrow>
                       (let org1 = h @ py_strip content2;
                            org2 = re_sub rx_table_fix
                                     (\<lambda>m g. grp_text g 1 @ ''table '' @ [nl] @ ''|'' @ grp_text g 3) org1;
                            org3 = dash_dates org2
                        in if accepts st3 (folder, out_name)
                           then st3\<lparr>out_files := (out_files st3)((folder, out_name) \<mapsto> org3),
                                    wide_files := wide_files st3 - {(folder, out_name)},
                                    files_processed := files_processed st3 + 1\<rparr>
                           else st3\<lparr>errors := errors st3 @ [fst file]\<rparr>))))"

subsection \<open>The passes over the corpus\<close>

text \<open>
  The source tree: the \<open>*.md\<close> files of \<open>pages\<close> and of \<open>journals\<close>, each with its stem and
  its content (\<open>None\<close> when it cannot be read), in the order in which \<open>glob\<close> yields them.
  A folder that does not exist has no files.
\<close>

record corpus =
  pages :: "(string \<times> string option) list"
  journals :: "(string \<times> string option) list"

text \<open>\<^verbatim>\<open>^title:\s*(.+)$\<close> with MULTILINE and IGNORECASE, and \<^verbatim>\<open>^#\s+(.+)$\<close> with MULTILINE\<close>

definition rx_title :: rx where
  "rx_title =
     seq [Bol, litI ''title:'', Many py_space 0 None True, Grp 1 (Many not_nl 1 None True), Eol]"

definition rx_h1 :: rx where
  "rx_h1 = seq [Bol, Lit CHR ''#'', Many py_space 1 None True, Grp 1 (Many not_nl 1 None True), Eol]"

text \<open>The body of the loop of \<open>scan_existing_pages\<close>.\<close>

definition scan_file :: "conv \<Rightarrow> string \<times> string option \<Rightarrow> conv" where
  "scan_file st file =
     (let page_name = fst file;
          st1 = st\<lparr>existing_pages := insert page_name (existing_pages st)\<rparr>;
          (st2, i) = generate_uuid st1;
          st3 = st2\<lparr>page_ids := (page_ids st2)(page_name \<mapsto> i)\<rparr>
      in case snd file of
           None \<Rightarrow> st3\<lparr>file_to_title := (file_to_title st3)(page_name \<mapsto> page_name),
                        warnings := warnings st3 @ [page_name]\<rparr>
         | Some content \<Rightarrow>
             (case re_search rx_title content of
                Some (m, g) \<Rightarrow>
                  st3\<lparr>file_to_title := (file_to_title st3)(page_name \<mapsto> py_strip (grp_text g 1))\<rparr>
              | None \<Rightarrow>
                  (case re_search rx_h1 content of
                     Some (m, g) \<Rightarrow>
                       st3\<lparr>file_to_title := (file_to_title st3)(page_name \<mapsto> py_strip (grp_text g 1))\<rparr>
                   | None \<Rightarrow>
                       st3\<lparr>file_to_title := (file_to_title st3)(page_name \<mapsto> page_name)\<rparr>)))"

definition scan_existing_pages :: "conv \<Rightarrow> corpus \<Rightarrow> conv" where
  "scan_existing_pages st c = foldl scan_file (foldl scan_file st (pages c)) (journals c)"

text \<open>
  The patterns of \<open>collect_missing_pages\<close>, all with IGNORECASE and MULTILINE:
  \<^verbatim>\<open>\[\[([^\]]+?)\]\]\<close>, \<^verbatim>\<open>\[\[([^\]|]+?)\|[^\]]*?\]\]\<close>, \<^verbatim>\<open>\[\[([^\]]+?)\]\]\([^)]*?\)\<close>,
  \<^verbatim>\<open>{{embed\s+\[\[([^\]]+?)\]\]}}\<close>, \<^verbatim>\<open>{{embed\s+\(\(([^)]+?)\)\)}}\<close>, then
  \<^verbatim>\<open>(?:^|\s)\[\[([^\]]+?)\]\](?:\s|$)\<close>, \<^verbatim>\<open>(?<=\s)\[\[([^\]]+?)\]\](?=\s)\<close>,
  \<^verbatim>\<open>(?<=^)\[\[([^\]]+?)\]\]\<close>, \<^verbatim>\<open>\[\[([^\]]+?)\]\](?=$)\<close>, \<^verbatim>\<open>(?<=\n)\[\[([^\]]+?)\]\]\<close>,
  \<^verbatim>\<open>\[\[([^\]]+?)\]\](?=\n)\<close>.
\<close>

definition link_core :: "rx list" where
  "link_core = [lit ''[['', Grp 1 (Many not_rbracket 1 None False), lit '']]'']"

definition all_patterns :: "rx list" where
  "all_patterns =
     [seq link_core,
      seq [lit ''[['', Grp 1 (Many (\<lambda>c. c \<noteq> CHR '']'' \<and> c \<noteq> CHR ''|'') 1 None False), Lit CHR ''|'',
           Many not_rbracket 0 None False, lit '']]''],
      seq (link_core @ [Lit CHR ''('', Many not_rparen 0 None False, Lit CHR '')'']),
      seq ([lit ''{{'', litI ''embed'', Many py_space 1 None True] @ link_core @ [lit ''}}'']),
      seq [lit ''{{'', litI ''embed'', Many py_space 1 None True, lit ''(('',
           Grp 1 (Many not_rparen 1 None False), lit ''))'', lit ''}}''],
      seq ([Alt Bol (Cls py_space)] @ link_core @ [Alt (Cls py_space) Eol]),
      seq ([Behind True py_space] @ link_core @ [Ahead True (Cls py_space)]),
      seq ([Bol] @ link_core),
      seq (link_core @ [Ahead True Eol]),
      seq ([Behind True (is_char nl)] @ link_core),
      seq (link_core @ [Ahead True (Lit nl)])]"

text \<open>What \<open>collect_missing_pages\<close> does with one match.\<close>

definition collect_match :: "conv \<Rightarrow> string \<Rightarrow> conv" where
  "collect_match st match =
     (let page_name = normalize_page_name match
      in if page_name \<noteq> [] \<and> page_name \<notin> existing_pages st then add_missing page_name st else st)"

definition collect_file :: "conv \<Rightarrow> string \<times> string option \<Rightarrow> conv" where
  "collect_file st file =
     (case snd file of
        None \<Rightarrow> st\<lparr>errors := errors st @ [fst file]\<rparr>
      | Some content \<Rightarrow>
          foldl (\<lambda>s pattern. foldl collect_match s (re_findall pattern content)) st all_patterns)"

definition collect_missing_pages :: "conv \<Rightarrow> corpus \<Rightarrow> conv" where
  "collect_missing_pages st c = foldl collect_file (foldl collect_file st (pages c)) (journals c)"

text \<open>The body of the loop of \<open>create_missing_pages\<close>.\<close>

definition create_stub :: "conv \<Rightarrow> string \<Rightarrow> conv" where
  "create_stub st page_name =
     (let (st1, page_id) = generate_uuid st;
          st2 = st1\<lparr>page_ids := (page_ids st1)(page_name \<mapsto> page_id)\<rparr>;
          stub_content =
            '':PROPERTIES:'' @ [nl] @ '':ID: '' @ page_id @ [nl] @ '':END:'' @ [nl] @
            ''#+TITLE: '' @ page_name @ [nl] @ ''#+FILETAGS: :stub:'' @ [nl] @ [nl] @
            ''This page was automatically created during Logseq migration on '' @
            clock st2 (ticks st2) @ ''.'' @ [nl];
          st3 = st2\<lparr>ticks := ticks st2 + 1\<rparr>
      in if accepts st3 (''pages'', page_name @ ''.org'')
         then st3\<lparr>out_files := (out_files st3)((''pages'', page_name @ ''.org'') \<mapsto> stub_content),
                  wide_files := wide_files st3 - {(''pages'', page_name @ ''.org'')},
                  missing_pages_created := missing_pages_created st3 + 1\<rparr>
         else st3\<lparr>errors := errors st3 @ [page_name]\<rparr>)"

text \<open>\<open>create_missing_pages\<close>: the loop over the set, in the order in which Python walks it.\<close>

definition create_missing_pages :: "conv \<Rightarrow> conv" where
  "create_missing_pages st = foldl create_stub st (sort_key (rank st) (missing_pages st))"

text \<open>The conversion loop of \<open>convert_all\<close> over one folder.\<close>

definition convert_folder :: "string \<Rightarrow> conv \<Rightarrow> (string \<times> string option) list \<Rightarrow> conv" where
  "convert_folder folder st files =
     foldl (\<lambda>s file. convert_file s folder file (dash_dates (fst file) @ ''.org'')) st files"

text \<open>
  \<open>convert_all\<close> up to the copying of the assets: the three passes and the conversion
  of the files of \<open>pages\<close> and of \<open>journals\<close>.
\<close>

definition convert_all :: "conv \<Rightarrow> corpus \<Rightarrow> conv" where
  "convert_all st c =
     (let st1 = scan_existing_pages st c;
          st2 = collect_missing_pages st1 c;
          st3 = create_missing_pages st2;
          st4 = convert_folder ''pages'' st3 (pages c)
      in convert_folder ''journals'' st4 (journals c))"

section \<open>Notions used in the statements about links\<close>











text \<open>
  A world for the examples: the \<open>k\<close>-th identifier drawn is all zeros but for its last
  digit, the clock stands still, every write succeeds, no front matter parses, and a
  set is walked in the order of insertion.
\<close>

definition demo_rng :: "nat \<Rightarrow> string" where
  "demo_rng k = ''0000000000000000000000000000000'' @ [''0123456789abcdef'' ! (k mod 16)]"

definition demo_conv :: conv where
  "demo_conv = init_conv demo_rng (\<lambda>k. ''2024-01-15 10:00:00'') (\<lambda>f. True) (\<lambda>s. YError) (\<lambda>n. 0)"

text \<open>
  The digits of \<open>uuid.uuid4().hex\<close>: 32 characters, each a lower-case hexadecimal
  digit.
\<close>

definition hexc :: "char \<Rightarrow> bool" where
  "hexc c = (c \<in> set ''0123456789abcdef'')"

definition hex_rng :: "conv \<Rightarrow> bool" where
  "hex_rng st = (\<forall>k. length (rng st k) = 32 \<and> list_all hexc (rng st k))"

text \<open>
  Two facts of a run in which \<open>uuid4\<close> has not repeated itself: the identifier drawn
  next differs from those drawn so far, and every identifier of the page registry was
  drawn.
\<close>

definition fresh_draw :: "conv \<Rightarrow> bool" where
  "fresh_draw st = (\<forall>k<draws st. uuid_str (rng st k) \<noteq> uuid_str (rng st (draws st)))"

definition drawn_ids :: "conv \<Rightarrow> bool" where
  "drawn_ids st = (\<forall>n i. page_ids st n = Some i \<longrightarrow> (\<exists>k<draws st. i = uuid_str (rng st k)))"

section \<open>Notions used in the statements about a run\<close>

text \<open>The documents of the output tree.\<close>

definition documents :: "conv \<Rightarrow> (string \<times> string) set" where
  "documents st = dom (out_files st) \<union> wide_files st"

text \<open>
  \<open>grows st st'\<close>: from \<open>st\<close> to \<open>st'\<close> the world is the same (which writes succeed, what
  the YAML parser returns) and no document of the output tree has gone.
\<close>

definition grows :: "conv \<Rightarrow> conv \<Rightarrow> bool" where
  "grows st st' = (accepts st' = accepts st \<and> yaml st' = yaml st \<and> documents st \<subseteq> documents st')"

text \<open>A corpus for the examples.\<close>

definition demo_corpus :: corpus where
  "demo_corpus =
     \<lparr>pages = [(''a'', Some ''[[*foo*]] [[2024_01_15]]'')], journals = [(''2024_01_15'', Some [])]\<rparr>"

section \<open>Facts about the text functions\<close>

lemma str_replace_char:
  "str_replace [a] new s = concat (map (\<lambda>c. if c = a then new else [c]) s)"
proof (induction s)
  case Nil
  show ?case by (subst str_replace.simps) simp
next
  case (Cons c cs)
  then show ?case by (subst str_replace.simps) auto
qed

lemma str_replace_char_absent:
  "a \<notin> set s \<Longrightarrow> str_replace [a] new s = s"
  by (induction s) (auto simp add: str_replace_char)

lemma set_py_strip: "set (py_strip s) \<subseteq> set s"
proof
  fix x assume "x \<in> set (py_strip s)"
  then have "x \<in> set (dropWhile py_space (rev (dropWhile py_space s)))"
    by (simp add: py_strip_def)
  then have "x \<in> set (rev (dropWhile py_space s))" by (rule set_dropWhileD)
  then have "x \<in> set (dropWhile py_space s)" by simp
  then show "x \<in> set s" by (rule set_dropWhileD)
qed

lemma last_dropWhile_nonempty:
  "dropWhile P xs \<noteq> [] \<Longrightarrow> last (dropWhile P xs) = last xs"
  by (metis dropWhile_last dropWhile_eq_Nil_conv)

lemma py_strip_idem: "py_strip (py_strip s) = py_strip s"
proof -
  let ?u = "dropWhile py_space s"
  let ?t = "dropWhile py_space (rev ?u)"
  have "dropWhile py_space (rev ?t) = rev ?t"
  proof (cases "?t = []")
    case True
    show ?thesis by (simp only: True rev.simps dropWhile.simps)
  next
    case False
    then have "last ?t = last (rev ?u)" by (rule last_dropWhile_nonempty)
    moreover have u: "?u \<noteq> []"
    proof
      assume "?u = []"
      then have "?t = []" by (simp only: rev.simps dropWhile.simps)
      with False show False by blast
    qed
    ultimately have "last ?t = hd ?u" by (simp add: last_rev)
    moreover have "\<not> py_space (hd ?u)" using u by (rule hd_dropWhile)
    ultimately have "\<not> py_space (hd (rev ?t))" using False by (simp add: hd_rev)
    then show ?thesis by (simp add: dropWhile_eq_self_iff)
  qed
  then show ?thesis
    by (simp add: py_strip_def)
qed

lemma re_scan_class:
  "re_scan (Cls P) p s = map (\<lambda>c. if P c then Hit [c] [] else Keep c) s"
  by (induction s arbitrary: p) (simp_all add: match_at_def)

lemma re_sub_delete_class: "re_sub (Cls P) (\<lambda>m g. []) s = filter (\<lambda>c. \<not> P c) s"
  unfolding re_sub_def re_scan_class by (induction s) simp_all

lemma normalize_page_name_chars:
  assumes "c \<in> set (normalize_page_name n)"
  shows "\<not> markup_char c \<and> c \<noteq> CHR ''/'' \<and> \<not> illegal_char c"
proof -
  let ?a = "filter (\<lambda>c. \<not> markup_char c) n"
  let ?b = "str_replace ''/'' ''___'' ?a"
  from assms have "c \<in> set (py_strip (filter (\<lambda>c. \<not> illegal_char c) ?b))"
    by (simp add: normalize_page_name_def re_sub_delete_class)
  then have "c \<in> set (filter (\<lambda>c. \<not> illegal_char c) ?b)"
    using set_py_strip by (rule rev_subsetD)
  then have legal: "\<not> illegal_char c" and b: "c \<in> set ?b" by auto
  from b have "c \<noteq> CHR ''/'' \<and> (c \<in> set ?a \<or> c = CHR ''_'')"
    by (auto simp: str_replace_char split: if_splits)
  then show ?thesis using legal by (auto simp: markup_char_def)
qed

text \<open>
  Claim C7. The page-name normalisation is a function of its argument alone, and it is
  idempotent: normalising a normalised name gives the same name, for every text.
\<close>

theorem normalize_page_name_idempotent:
  "normalize_page_name (normalize_page_name n) = normalize_page_name n"
proof -
  let ?r = "normalize_page_name n"
  have a: "filter (\<lambda>c. \<not> markup_char c) ?r = ?r"
    using normalize_page_name_chars by (simp add: filter_id_conv)
  have b: "str_replace ''/'' ''___'' ?r = ?r"
    using normalize_page_name_chars by (intro str_replace_char_absent) blast
  have c: "filter (\<lambda>c. \<not> illegal_char c) ?r = ?r"
    using normalize_page_name_chars by (simp add: filter_id_conv)
  have d: "py_strip ?r = ?r"
    unfolding normalize_page_name_def by (rule py_strip_idem)
  have "normalize_page_name ?r = py_strip (filter (\<lambda>c. \<not> illegal_char c)
          (str_replace ''/'' ''___'' (filter (\<lambda>c. \<not> markup_char c) ?r)))"
    by (simp add: normalize_page_name_def [of ?r] re_sub_delete_class)
  then show ?thesis by (simp only: a b c d)
qed

section \<open>Facts about the matcher\<close>

lemma lastc_simps [simp]: "lastc p [] = p" "lastc p (x # xs) = lastc (Some x) xs"
  by (simp_all add: lastc_def)

lemma lastc_append [simp]: "lastc p (xs @ ys) = lastc (lastc p xs) ys"
  by (simp add: lastc_def)

lemma concat_map_Nil: "(\<And>x. x \<in> set xs \<Longrightarrow> F x = []) \<Longrightarrow> concat (map F xs) = []"
  by (induction xs) simp_all

text \<open>The states of \<open>runs\<close> on a run of class characters followed by something else.\<close>

lemma runs_split:
  assumes "\<forall>x\<in>set xs. P x" and "rest = [] \<or> \<not> P (hd rest)"
  shows "\<exists>pre. runs P p (xs @ rest) = pre @ [(lastc p xs, rest)] \<and> length pre = length xs \<and>
           (\<forall>(p', s')\<in>set pre. \<exists>c u. s' = c # u \<and> P c)"
  using assms
proof (induction xs arbitrary: p)
  case Nil
  then show ?case by (cases rest) auto
next
  case (Cons x xs)
  from Cons.IH [of "Some x"] Cons.prems obtain pre where
    pre: "runs P (Some x) (xs @ rest) = pre @ [(lastc (Some x) xs, rest)]" "length pre = length xs"
      "\<forall>(p', s')\<in>set pre. \<exists>c u. s' = c # u \<and> P c"
    by auto
  have "P x" using Cons.prems by simp
  then have "runs P p ((x # xs) @ rest) = ((p, x # xs @ rest) # pre) @ [(lastc p (x # xs), rest)]"
    using pre(1) by simp
  moreover have "\<forall>(p', s')\<in>set ((p, x # xs @ rest) # pre). \<exists>c u. s' = c # u \<and> P c"
    using pre(3) \<open>P x\<close> by auto
  ultimately show ?case using pre(2)
    by (intro exI [of _ "(p, x # xs @ rest) # pre"]) simp
qed

text \<open>A repeated class followed by a matcher that refuses the characters of the class.\<close>

lemma many_then:
  assumes xs: "\<forall>x\<in>set xs. P x" and rest: "rest = [] \<or> \<not> P (hd rest)"
    and K: "\<And>p' c u. P c \<Longrightarrow> K (p', c # u, g) = []"
  shows "concat (map K (ms (Many P lo None gr) (p, xs @ rest, g))) =
           (if lo \<le> length xs then K (lastc p xs, rest, g) else [])"
proof -
  from runs_split [OF xs rest, of p] obtain pre where
    pre: "runs P p (xs @ rest) = pre @ [(lastc p xs, rest)]" "length pre = length xs"
      "\<forall>(p', s')\<in>set pre. \<exists>c u. s' = c # u \<and> P c"
    by blast
  let ?e = "\<lambda>(p', s'). (p', s', g)"
  have fail: "\<And>z. z \<in> set (drop lo pre) \<Longrightarrow> K (?e z) = []"
    using pre(3) K by (fastforce dest: in_set_dropD)
  show ?thesis
  proof (cases "lo \<le> length xs")
    case True
    then have d: "drop lo (runs P p (xs @ rest)) = drop lo pre @ [(lastc p xs, rest)]"
      using pre by simp
    have "concat (map K (map ?e (drop lo pre))) = []"
      by (rule concat_map_Nil) (auto dest: fail)
    moreover have "concat (map K (map ?e (rev (drop lo pre)))) = []"
      by (rule concat_map_Nil) (auto dest: fail)
    ultimately show ?thesis using True
      by (cases gr) (simp_all add: d)
  next
    case False
    then have "drop lo (runs P p (xs @ rest)) = []" using pre by simp
    then show ?thesis using False by simp
  qed
qed

lemma grp_many_then:
  assumes xs: "\<forall>x\<in>set xs. P x" and rest: "rest = [] \<or> \<not> P (hd rest)"
    and K: "\<And>p' c u g'. P c \<Longrightarrow> K (p', c # u, g') = []"
  shows "concat (map K (ms (Grp n (Many P lo None gr)) (p, xs @ rest, g))) =
           (if lo \<le> length xs then K (lastc p xs, rest, (n, xs) # g) else [])"
proof -
  let ?s = "xs @ rest"
  let ?cap = "\<lambda>(p', s', g'). (p', s', (n, take (length ?s - length s') ?s) # g')"
  have K': "\<And>p' c u. P c \<Longrightarrow> (K \<circ> ?cap) (p', c # u, g) = []"
    using K by simp
  have "concat (map K (ms (Grp n (Many P lo None gr)) (p, ?s, g))) =
          concat (map (K \<circ> ?cap) (ms (Many P lo None gr) (p, ?s, g)))"
    by (simp del: ms.simps(3) add: comp_def)
  also have "\<dots> = (if lo \<le> length xs then (K \<circ> ?cap) (lastc p xs, rest, g) else [])"
    using xs rest K' by (rule many_then)
  finally show ?thesis by simp
qed

text \<open>A literal text.\<close>

lemma ms_lit:
  "ms (lit k) (p, s, g) = (if prefix k s then [(lastc p k, drop (length k) s, g)] else [])"
proof (induction k arbitrary: p s)
  case Nil
  show ?case by (simp add: lit_def seq_def)
next
  case (Cons c k)
  have unf: "ms (lit (c # k)) st = concat (map (ms (lit k)) (ms (Lit c) st))" for st
    by (simp add: lit_def seq_def)
  show ?case
    by (cases s) (simp_all add: unf Cons.IH)
qed

lemma ms_seq_cons: "ms (seq (r # rs)) st = concat (map (ms (seq rs)) (ms r st))"
  by (simp add: seq_def)

lemma ms_seq_nil: "ms (seq []) st = [st]"
  by (simp add: seq_def)

text \<open>\<^verbatim>\<open>(.+)\<close> on a text without a newline takes all of it first.\<close>

lemma ms_text_all:
  assumes "nl \<notin> set u"
  shows "\<exists>others. ms (Grp n (Many not_nl (Suc 0) None True)) (p, u, g) =
           (if u = [] then [] else (Some (last u), [], (n, u) # g) # others)"
proof (cases u)
  case Nil
  then show ?thesis by simp
next
  case (Cons c cs)
  have "\<forall>x\<in>set u. not_nl x" using assms by (auto simp: not_nl_def)
  from runs_split [OF this, of "[]" p] obtain pre where
    pre: "runs not_nl p u = pre @ [(lastc p u, [])]" "length pre = length u"
    by auto
  then have "pre \<noteq> []" using Cons by auto
  then have "rev (drop (Suc 0) (runs not_nl p u)) = (lastc p u, []) # rev (drop (Suc 0) pre)"
    using pre(1) by (cases pre) simp_all
  then show ?thesis using Cons by (simp add: lastc_def)
qed

text \<open>\<^verbatim>\<open>\s+(.+)\<close> on a text without a newline.\<close>

lemma ms_ws_text_aux:
  assumes "nl \<notin> set r"
  shows "\<exists>others. concat (map (ms (Grp n (Many not_nl (Suc 0) None True)))
                  (map (\<lambda>(p', s'). (p', s', g)) (rev (runs py_space p r)))) =
           (if r = [] then [] else (Some (last r), [], (n, after_ws r) # g) # others)"
  using assms
proof (induction r arbitrary: p)
  case Nil
  show ?case by simp
next
  case (Cons x xs)
  let ?T = "ms (Grp n (Many not_nl (Suc 0) None True))"
  let ?e = "\<lambda>(p', s'). (p', s', g)"
  from ms_text_all [OF Cons.prems, of n p g] obtain tl0 where
    here: "?T (p, x # xs, g) = (Some (last (x # xs)), [], (n, x # xs) # g) # tl0"
    by auto
  show ?case
  proof (cases "py_space x \<and> xs \<noteq> []")
    case True
    from Cons.IH [of "Some x"] Cons.prems True obtain others where
      "concat (map ?T (map ?e (rev (runs py_space (Some x) xs)))) =
         (Some (last xs), [], (n, after_ws xs) # g) # others"
      by auto
    moreover have "after_ws (x # xs) = after_ws xs" using True
      by (simp add: after_ws_def)
    ultimately show ?thesis using True by simp
  next
    case False
    then consider "\<not> py_space x" | "py_space x" "xs = []" by blast
    then show ?thesis
    proof cases
      case 1
      then have "after_ws (x # xs) = x # xs" by (simp add: after_ws_def)
      then show ?thesis using 1 here by (simp del: ms.simps)
    next
      case 2
      then have "after_ws (x # xs) = x # xs" by (simp add: after_ws_def)
      moreover have "?T (Some x, [], g) = []" by simp
      ultimately show ?thesis using 2 here by (simp del: ms.simps)
    qed
  qed
qed

lemma ms_ws_text:
  assumes "nl \<notin> set r"
  shows "\<exists>others. ms (Seq (Many py_space (Suc 0) None True) (Grp n (Many not_nl (Suc 0) None True))) (q, r, g) =
           (if marked r then (Some (last r), [], (n, after_ws r) # g) # others else [])"
proof (cases r)
  case Nil
  then show ?thesis by (simp add: marked_def)
next
  case (Cons s r')
  show ?thesis
  proof (cases "py_space s")
    case False
    then show ?thesis using Cons by (simp add: marked_def)
  next
    case True
    have "nl \<notin> set r'" using assms Cons by simp
    from ms_ws_text_aux [OF this, of n g "Some s"] obtain others where
      m: "concat (map (ms (Grp n (Many not_nl (Suc 0) None True)))
                  (map (\<lambda>(p', s'). (p', s', g)) (rev (runs py_space (Some s) r')))) =
           (if r' = [] then [] else (Some (last r'), [], (n, after_ws r') # g) # others)"
      by blast
    have "after_ws (s # r') = after_ws r'" if "r' \<noteq> []"
      using that True by (simp add: after_ws_def)
    then show ?thesis using Cons True m
      by (auto simp del: ms.simps(9) simp add: marked_def)
  qed
qed

lemma concat_map_bind:
  "concat (map (\<lambda>x. concat (map f (h x))) xs) = concat (map f (concat (map h xs)))"
  by (induction xs) simp_all

lemma ms_seq_assoc: "ms (Seq a (Seq b c)) st = ms (Seq (Seq a b) c) st"
  by (simp add: concat_map_bind)

lemma ms_ws_text_end:
  assumes "nl \<notin> set r"
  shows "\<exists>others. ms (seq [Many py_space (Suc 0) None True, Grp n (Many not_nl (Suc 0) None True), Eos]) (q, r, g) =
           (if marked r then (Some (last r), [], (n, after_ws r) # g) # others else [])"
proof -
  let ?W = "Many py_space (Suc 0) None True" and ?T = "Grp n (Many not_nl (Suc 0) None True)"
  from ms_ws_text [OF assms, of n q g] obtain others where
    m: "ms (Seq ?W ?T) (q, r, g) = (if marked r then (Some (last r), [], (n, after_ws r) # g) # others else [])"
    by blast
  have "ms (seq [?W, ?T, Eos]) (q, r, g) = concat (map (ms (Seq Eos Eps)) (ms (Seq ?W ?T) (q, r, g)))"
    unfolding seq_def foldr.simps comp_def ms_seq_assoc [of ?W ?T] by (simp del: ms.simps(3,9))
  then show ?thesis unfolding m by simp
qed

lemma ms_list_item:
  assumes ws: "\<forall>c\<in>set ws. py_space c" and r: "nl \<notin> set r"
  shows "\<exists>others. ms rx_list_item (None, ws @ CHR ''-'' # r, []) =
           (if marked r then (Some (last r), [], [(2, after_ws r), (1, ws)]) # others else [])"
proof -
  let ?rs = "[Many py_space (Suc 0) None True, Grp 2 (Many not_nl (Suc 0) None True), Eos]"
  let ?K = "ms (seq (Lit CHR ''-'' # ?rs))"
  have K: "\<And>p' c u g'. py_space c \<Longrightarrow> ?K (p', c # u, g') = []"
    by (auto simp: ms_seq_cons py_space_def)
  have "ms rx_list_item (None, ws @ CHR ''-'' # r, []) =
          concat (map ?K (ms (Grp 1 (Many py_space 0 None True)) (None, ws @ CHR ''-'' # r, [])))"
    by (simp add: rx_list_item_def ms_seq_cons del: ms.simps(3,9))
  also have "\<dots> = ?K (lastc None ws, CHR ''-'' # r, [(1, ws)])"
    using grp_many_then [where K = ?K and P = py_space and xs = ws and rest = "CHR ''-'' # r"
        and n = 1 and lo = 0 and gr = True and p = None and g = "[]", OF ws _ K]
    by (simp add: py_space_def del: ms.simps)
  also have "\<dots> = ms (seq ?rs) (Some CHR ''-'', r, [(1, ws)])"
    by (simp add: ms_seq_cons del: ms.simps(3,9))
  finally show ?thesis using ms_ws_text_end [OF r, of 2 "Some CHR ''-''" "[(1, ws)]"]
    by simp
qed

section \<open>Lists to headings: the depth of a heading\<close>

lemma list_heading_shape:
  "\<exists>body. list_heading d t = replicate d CHR ''*'' @ CHR '' '' # body"
  by (simp add: list_heading_def split: option.split)

lemma convert_list_line_item:
  assumes ws: "\<forall>c\<in>set ws. py_space c" and r: "nl \<notin> set r" and m: "marked r"
  shows "convert_list_line (ws @ CHR ''-'' # r) =
           list_heading (min 6 ((2 * count_list ws CHR 0x09 + count_list ws CHR '' '') div 2 + 1)) (after_ws r)"
proof -
  from ms_list_item [OF ws r] m obtain others where
    "ms rx_list_item (None, ws @ CHR ''-'' # r, []) = (Some (last r), [], [(2, after_ws r), (1, ws)]) # others"
    by auto
  then show ?thesis
    by (simp add: convert_list_line_def re_match_def match_at_def grp_text_def min.commute mult.commute)
qed

text \<open>The lines of a text: \<open>split('\n')\<close> undoes \<open>'\n'.join\<close> on lines without a newline.\<close>

lemma split_on_not_Nil [simp]: "split_on d s \<noteq> []"
  by (induction s) (auto split: list.split)

lemma split_on_line: "d \<notin> set l \<Longrightarrow> split_on d (l @ d # rest) = l # split_on d rest"
  by (induction l) (auto split: list.split)

lemma split_on_last: "d \<notin> set l \<Longrightarrow> split_on d l = [l]"
  by (induction l) (auto split: list.split)

lemma split_on_join:
  assumes "\<forall>l\<in>set ls. d \<notin> set l" and "ls \<noteq> []"
  shows "split_on d (join_with [d] ls) = ls"
  using assms
proof (induction ls)
  case Nil
  then show ?case by simp
next
  case (Cons l ls)
  show ?case
  proof (cases ls)
    case Nil
    then show ?thesis using Cons.prems by (simp add: split_on_last)
  next
    case (Cons l' ls')
    then have "join_with [d] (l # ls) = l @ d # join_with [d] ls" by simp
    moreover have "split_on d (join_with [d] ls) = ls" using Cons Cons.IH Cons.prems by simp
    ultimately show ?thesis using Cons.prems by (simp add: split_on_line)
  qed
qed

lemma convert_hierarchical_structure_lines:
  assumes "\<forall>l\<in>set ls. nl \<notin> set l" and "ls \<noteq> []"
  shows "convert_hierarchical_structure (join_with [nl] ls) = join_with [nl] (map convert_list_line ls)"
  using assms by (simp add: convert_hierarchical_structure_def split_on_join)

lemma convert_hierarchical_structure_item:
  assumes lines: "\<forall>l\<in>set (before @ after). nl \<notin> set l"
    and ws: "\<forall>c\<in>set ws. py_space c \<and> c \<noteq> nl" and r: "nl \<notin> set r" and m: "marked r"
  shows "convert_hierarchical_structure (join_with [nl] (before @ [ws @ CHR ''-'' # r] @ after)) =
           join_with [nl] (map convert_list_line before @
             [list_heading (min 6 ((2 * count_list ws CHR 0x09 + count_list ws CHR '' '') div 2 + 1)) (after_ws r)]
             @ map convert_list_line after)"
proof -
  have "nl \<notin> set (ws @ CHR ''-'' # r)" using ws r by (auto simp: nl_def)
  then have "\<forall>l\<in>set (before @ [ws @ CHR ''-'' # r] @ after). nl \<notin> set l"
    using lines by auto
  then have "convert_hierarchical_structure (join_with [nl] (before @ [ws @ CHR ''-'' # r] @ after)) =
      join_with [nl] (map convert_list_line (before @ [ws @ CHR ''-'' # r] @ after))"
    by (intro convert_hierarchical_structure_lines) simp_all
  moreover have "convert_list_line (ws @ CHR ''-'' # r) =
      list_heading (min 6 ((2 * count_list ws CHR 0x09 + count_list ws CHR '' '') div 2 + 1)) (after_ws r)"
    using ws r m by (intro convert_list_line_item) auto
  ultimately show ?thesis by simp
qed

text \<open>
  Claim C8. In the pass \<open>convert_hierarchical_structure\<close>, a line made of leading
  whitespace \<open>ws\<close>, a dash, whitespace and further text, wherever it stands among the
  lines of the content, becomes a heading whose depth is \<open>min 6 (indent div 2 + 1)\<close>,
  where \<open>indent\<close> counts each tab of \<open>ws\<close> as 2 and each space as 1: in the output the
  line is the heading of that level made from the text after the dash, and it starts
  with exactly that many stars and a space. The lines before and after it are converted
  on their own. The witness has \<open>- TODO buy milk\<close> at no indentation (one star, state
  TODO, text \<open>buy milk\<close>) and, between two other lines, indented by four spaces (three
  stars).
\<close>

theorem list_item_heading_depth:
  assumes lines: "\<forall>l\<in>set (before @ after). nl \<notin> set l"
    and ws: "\<forall>c\<in>set ws. py_space c \<and> c \<noteq> nl" and r: "nl \<notin> set r" and m: "marked r"
  shows "convert_hierarchical_structure (join_with [nl] (before @ [ws @ CHR ''-'' # r] @ after)) =
           join_with [nl] (map convert_list_line before @
             [list_heading (min 6 ((2 * count_list ws CHR 0x09 + count_list ws CHR '' '') div 2 + 1)) (after_ws r)]
             @ map convert_list_line after)
         \<and> (\<exists>body. list_heading (min 6 ((2 * count_list ws CHR 0x09 + count_list ws CHR '' '') div 2 + 1)) (after_ws r) =
               replicate (min 6 ((2 * count_list ws CHR 0x09 + count_list ws CHR '' '') div 2 + 1)) CHR ''*''
                 @ CHR '' '' # body)"
  using convert_hierarchical_structure_item [OF lines ws r m] list_heading_shape by (simp only:)

lemma list_heading_demo:
  "list_heading n ''TODO buy milk'' = replicate n CHR ''*'' @ '' TODO buy milk''"
  by (simp add: list_heading_def re_match_def match_at_def rx_checkbox_def rx_task_def seq_def
      lit_def grp_text_def py_space_def not_nl_def nl_def task_states_def)

lemma convert_list_line_demo:
  "convert_list_line ''# Title'' = ''# Title''" "convert_list_line ''plain'' = ''plain''"
  by (simp_all add: convert_list_line_def re_match_def match_at_def rx_list_item_def seq_def
      py_space_def)

theorem list_item_heading_depth_witness:
  "list_all (\<lambda>l. nl \<notin> set l) ([''# Title''] @ [''plain'']) \<and>
   list_all (\<lambda>c. py_space c \<and> c \<noteq> nl) ''    '' \<and> nl \<notin> set '' TODO buy milk'' \<and> marked '' TODO buy milk'' \<and>
   convert_hierarchical_structure (''# Title'' @ [nl] @ ''    - TODO buy milk'' @ [nl] @ ''plain'') =
     ''# Title'' @ [nl] @ ''*** TODO buy milk'' @ [nl] @ ''plain'' \<and>
   convert_hierarchical_structure ''- TODO buy milk'' = ''* TODO buy milk''"
proof -
  have l: "\<forall>l\<in>set ([''# Title''] @ [''plain'']). nl \<notin> set l" by (simp add: nl_def)
  have l0: "\<forall>l\<in>set ([] @ []). nl \<notin> set (l :: string)" by simp
  have a: "\<forall>c\<in>set ''    ''. py_space c \<and> c \<noteq> nl" by (simp add: py_space_def nl_def)
  have a0: "\<forall>c\<in>set []. py_space c \<and> c \<noteq> nl" by simp
  have b: "nl \<notin> set '' TODO buy milk''" by (simp add: nl_def)
  have c: "marked '' TODO buy milk''" by (simp add: marked_def py_space_def)
  have t: "after_ws '' TODO buy milk'' = ''TODO buy milk''" by (simp add: after_ws_def py_space_def)
  from list_item_heading_depth [OF l a b c] list_item_heading_depth [OF l0 a0 b c]
  show ?thesis using l a b c
    by (simp add: t list_heading_demo convert_list_line_demo list_all_iff)
qed

lemma ms_ws_text_open:
  assumes "nl \<notin> set r"
  shows "\<exists>others. ms (seq [Many py_space (Suc 0) None True, Grp n (Many not_nl (Suc 0) None True)]) (q, r, g) =
           (if marked r then (Some (last r), [], (n, after_ws r) # g) # others else [])"
proof -
  let ?W = "Many py_space (Suc 0) None True" and ?T = "Grp n (Many not_nl (Suc 0) None True)"
  from ms_ws_text [OF assms, of n q g] obtain others where
    m: "ms (Seq ?W ?T) (q, r, g) = (if marked r then (Some (last r), [], (n, after_ws r) # g) # others else [])"
    by blast
  have "ms (seq [?W, ?T]) (q, r, g) = concat (map (ms Eps) (ms (Seq ?W ?T) (q, r, g)))"
    unfolding seq_def foldr.simps comp_def ms_seq_assoc [of ?W ?T] by (simp del: ms.simps(3,9))
  then show ?thesis unfolding m by simp
qed

lemma list3_cases:
  obtains "length xs < 3" | a b c r where "xs = a # b # c # r"
proof (cases xs)
  case Nil
  then show ?thesis using that(1) by simp
next
  case c1: (Cons a t1)
  show ?thesis
  proof (cases t1)
    case Nil
    then show ?thesis using that(1) c1 by simp
  next
    case c2: (Cons b t2)
    show ?thesis
    proof (cases t2)
      case Nil
      then show ?thesis using that(1) c1 c2 by simp
    next
      case (Cons c r)
      then show ?thesis using that(2) c1 c2 by simp
    qed
  qed
qed

section \<open>Lists to headings: the state of a task\<close>

lemma ms_checkbox_state:
  "ms (Grp (Suc 0) (Alt (Lit CHR '' '') (Alt (Lit CHR ''x'') (Lit CHR ''X'')))) (p, s, g) =
     (case s of [] \<Rightarrow> []
      | b # r \<Rightarrow> if b \<in> {CHR '' '', CHR ''x'', CHR ''X''} then [(Some b, r, (Suc 0, [b]) # g)] else [])"
  by (cases s) auto

lemma ms_checkbox:
  assumes "nl \<notin> set text"
  shows "\<exists>others. ms rx_checkbox (None, text, []) =
           (if \<exists>c\<in>{CHR '' '', CHR ''x'', CHR ''X''}. spec_starts [CHR ''['', c, CHR '']''] text
            then (Some (last text), [], [(2, after_ws (drop 3 text)), (1, [hd (tl text)])]) # others
            else [])"
proof -
  let ?rs = "[Many py_space (Suc 0) None True, Grp 2 (Many not_nl (Suc 0) None True)]"
  consider "length text < 3" | a b c r where "text = a # b # c # r"
    by (rule list3_cases)
  then show ?thesis
  proof cases
    case 1
    then have "ms rx_checkbox (None, text, []) = []"
      by (cases "text"; cases "tl text"; cases "tl (tl text)")
         (auto simp: rx_checkbox_def ms_seq_cons ms_checkbox_state simp del: ms.simps(3,9))
    moreover have "\<not> spec_starts [CHR ''['', c, CHR '']''] text" for c
      using 1 by (auto simp: spec_starts_def prefix_def)
    ultimately show ?thesis by simp
  next
    case 2
    have nlr: "nl \<notin> set r" using assms 2 by simp
    show ?thesis
    proof (cases "a = CHR ''['' \<and> b \<in> {CHR '' '', CHR ''x'', CHR ''X''} \<and> c = CHR '']''")
      case False
      then have "ms rx_checkbox (None, text, []) = []"
        unfolding 2 by (auto simp: rx_checkbox_def ms_seq_cons ms_checkbox_state simp del: ms.simps(3,9))
      moreover have "\<not> spec_starts [CHR ''['', c', CHR '']''] text" if "c' \<in> {CHR '' '', CHR ''x'', CHR ''X''}" for c'
        using False that unfolding 2 by (auto simp: spec_starts_def)
      ultimately show ?thesis by auto
    next
      case True
      then have "ms rx_checkbox (None, text, []) = ms (seq ?rs) (Some CHR '']'', r, [(1, [b])])"
        unfolding 2 by (auto simp: rx_checkbox_def ms_seq_cons ms_checkbox_state simp del: ms.simps(3,9))
      moreover have "(\<exists>c'\<in>{CHR '' '', CHR ''x'', CHR ''X''}. spec_starts [CHR ''['', c', CHR '']''] text) = marked r"
        using True unfolding 2 by (auto simp: spec_starts_def)
      moreover have "marked r \<Longrightarrow> last text = last r"
        unfolding 2 by (auto simp: marked_def split: list.splits)
      ultimately show ?thesis
        using ms_ws_text_open [OF nlr, of 2 "Some CHR '']''" "[(1, [b])]"]
        unfolding 2 by auto
    qed
  qed
qed

lemma concat_map_find:
  assumes "\<And>k. k \<in> set ks \<Longrightarrow> \<exists>others. F k = (if Q k then X k # others else [])"
  shows "\<exists>others. concat (map F ks) = (case find Q ks of None \<Rightarrow> [] | Some k \<Rightarrow> X k # others)"
  using assms
proof (induction ks)
  case Nil
  show ?case by simp
next
  case (Cons k ks)
  from Cons.prems [of k] obtain m1 where m1: "F k = (if Q k then X k # m1 else [])" by auto
  from Cons.IH Cons.prems obtain m2 where
    m2: "concat (map F ks) = (case find Q ks of None \<Rightarrow> [] | Some k \<Rightarrow> X k # m2)" by auto
  show ?case
  proof (cases "Q k")
    case True
    then show ?thesis by (simp add: m1)
  next
    case False
    then show ?thesis by (intro exI [of _ m2]) (simp add: m1 m2)
  qed
qed

lemma ms_grp_alt: "ms (Grp n (Alt a b)) st = ms (Grp n a) st @ ms (Grp n b) st"
  by (cases st) simp

lemma ms_grp_lit:
  "ms (Grp n (lit k)) (p, s, g) =
     (if prefix k s then [(lastc p k, drop (length k) s, (n, k) # g)] else [])"
  by (auto simp: ms_lit prefix_def)

lemma ms_task_keyword:
  "ms (Grp (Suc 0) (Alt (lit ''TODO'') (Alt (lit ''DONE'') (Alt (lit ''LATER'') (Alt (lit ''NOW'')
        (Alt (lit ''DOING'') (Alt (lit ''WAITING'') (Alt (lit ''CANCELLED'') (lit ''OVERDUE''))))))))) (p, s, g) =
     concat (map (\<lambda>k. if prefix k s then [(Some (last k), drop (length k) s, (Suc 0, k) # g)] else []) spec_keywords)"
  by (simp add: ms_grp_alt ms_grp_lit spec_keywords_def lastc_def del: ms.simps)

lemma ms_task:
  assumes "nl \<notin> set text"
  shows "\<exists>others. ms rx_task (None, text, []) =
           (case find (\<lambda>k. spec_starts k text) spec_keywords of
              None \<Rightarrow> []
            | Some k \<Rightarrow> (Some (last text), [], [(2, after_ws (drop (length k) text)), (1, k)]) # others)"
proof -
  let ?rs = "[Many py_space (Suc 0) None True, Grp 2 (Many not_nl (Suc 0) None True), Eos]"
  let ?F = "\<lambda>k. concat (map (ms (seq ?rs))
              (if prefix k text then [(Some (last k), drop (length k) text, [(Suc 0, k)])] else []))"
  have "ms rx_task (None, text, []) = concat (map ?F spec_keywords)"
    unfolding rx_task_def
    by (simp add: ms_seq_cons ms_task_keyword concat_map_bind [symmetric] del: ms.simps(3,6,9))
  moreover have "\<exists>others. ?F k = (if spec_starts k text
        then (Some (last text), [], [(2, after_ws (drop (length k) text)), (1, k)]) # others else [])" for k
  proof (cases "prefix k text")
    case False
    then show ?thesis by (simp add: spec_starts_def)
  next
    case True
    have "nl \<notin> set (drop (length k) text)" using assms by (auto dest: in_set_dropD)
    from ms_ws_text_end [OF this, of 2 "Some (last k)" "[(Suc 0, k)]"]
    obtain others where m: "ms (seq ?rs) (Some (last k), drop (length k) text, [(Suc 0, k)]) =
        (if marked (drop (length k) text)
         then (Some (last (drop (length k) text)), [], [(2, after_ws (drop (length k) text)), (Suc 0, k)]) # others
         else [])" by blast
    have "last (drop (length k) text) = last text" if "marked (drop (length k) text)"
    proof -
      from that have "drop (length k) text \<noteq> []" by (auto simp: marked_def)
      then have "length k < length text" by simp
      then show ?thesis by (rule last_drop)
    qed
    then show ?thesis using True m by (auto simp: spec_starts_def)
  qed
  ultimately show ?thesis
    using concat_map_find [of spec_keywords ?F "\<lambda>k. spec_starts k text"
          "\<lambda>k. (Some (last text), [], [(2, after_ws (drop (length k) text)), (1, k)])"]
    by simp
qed

lemma task_states_fold:
  "k \<in> set spec_keywords \<Longrightarrow> map_of task_states k = Some (spec_fold k)"
  by (auto simp: spec_keywords_def task_states_def spec_fold_def)

lemma list_heading_spec:
  assumes "nl \<notin> set text"
  shows "list_heading level text = replicate level CHR ''*'' @ '' '' @ spec_heading_text text"
proof -
  from ms_checkbox [OF assms] obtain m1 where
    cb: "ms rx_checkbox (None, text, []) =
           (if \<exists>c\<in>{CHR '' '', CHR ''x'', CHR ''X''}. spec_starts [CHR ''['', c, CHR '']''] text
            then (Some (last text), [], [(2, after_ws (drop 3 text)), (1, [hd (tl text)])]) # m1
            else [])" by blast
  from ms_task [OF assms] obtain m2 where
    tk: "ms rx_task (None, text, []) =
           (case find (\<lambda>k. spec_starts k text) spec_keywords of
              None \<Rightarrow> []
            | Some k \<Rightarrow> (Some (last text), [], [(2, after_ws (drop (length k) text)), (1, k)]) # m2)"
    by blast
  show ?thesis
  proof (cases "\<exists>c\<in>{CHR '' '', CHR ''x'', CHR ''X''}. spec_starts [CHR ''['', c, CHR '']''] text")
    case True
    then obtain c where c: "c \<in> {CHR '' '', CHR ''x'', CHR ''X''}" "spec_starts [CHR ''['', c, CHR '']''] text"
      by blast
    then have hd: "hd (tl text) = c" by (auto simp: spec_starts_def prefix_def)
    have other: "spec_starts [CHR ''['', c', CHR '']''] text \<longleftrightarrow> c' = c" for c'
      using c(2) by (auto simp: spec_starts_def prefix_def)
    have "\<exists>m. re_match rx_checkbox text = Some (m, [(2, after_ws (drop 3 text)), (1, [c])])"
      using True by (simp add: re_match_def match_at_def cb hd)
    then have "list_heading level text =
            replicate level CHR ''*'' @ '' '' @ (if map ascii_lower [c] = ''x'' then ''DONE'' else ''TODO'')
              @ '' '' @ after_ws (drop 3 text)"
      by (auto simp: list_heading_def grp_text_def)
    moreover have "spec_heading_text text =
            (if c = CHR '' '' then ''TODO '' else ''DONE '') @ after_ws (drop 3 text)"
      using c(1) by (auto simp: spec_heading_text_def other)
    moreover have "map ascii_lower [c] = ''x'' \<longleftrightarrow> c \<noteq> CHR '' ''"
      using c(1) by (elim insertE emptyE) (simp_all add: ascii_lower_def)
    ultimately show ?thesis by simp
  next
    case False
    then have nocb: "re_match rx_checkbox text = None"
      by (simp add: re_match_def match_at_def cb)
    have nospec: "\<not> spec_starts ''[ ]'' text" "\<not> spec_starts ''[x]'' text" "\<not> spec_starts ''[X]'' text"
      using False by auto
    show ?thesis
    proof (cases "find (\<lambda>k. spec_starts k text) spec_keywords")
      case None
      then have "re_match rx_task text = None"
        by (simp add: re_match_def match_at_def tk)
      then show ?thesis using None
        by (simp add: list_heading_def nocb spec_heading_text_def nospec)
    next
      case (Some k)
      then have "k \<in> set spec_keywords" by (auto simp: find_Some_iff)
      then have "map_of task_states k = Some (spec_fold k)" by (rule task_states_fold)
      moreover have "\<exists>m. re_match rx_task text = Some (m, [(2, after_ws (drop (length k) text)), (1, k)])"
        using Some by (simp add: re_match_def match_at_def tk)
      ultimately show ?thesis using Some
        by (auto simp: list_heading_def nocb spec_heading_text_def nospec grp_text_def)
    qed
  qed
qed

text \<open>
  Claim C9, amended. In the pass \<open>convert_hierarchical_structure\<close>, the text of a list
  item, wherever the item stands among the lines of the content, becomes the text of a
  heading by this rule: a checkbox first (\<open>[ ]\<close> gives TODO, \<open>[x]\<close> and \<open>[X]\<close> give
  DONE), then the keywords TODO, DONE, LATER, NOW, DOING, WAITING, CANCELLED, OVERDUE,
  matched with their capitals and mapped by the table (NOW and OVERDUE to TODO, the
  others to themselves), else the text unchanged with no state. A checkbox or a keyword
  counts only when whitespace and at least one further character follow it.
\<close>

theorem list_heading_task_state:
  assumes lines: "\<forall>l\<in>set (before @ after). nl \<notin> set l"
    and ws: "\<forall>c\<in>set ws. py_space c \<and> c \<noteq> nl" and r: "nl \<notin> set r" and m: "marked r"
  shows "convert_hierarchical_structure (join_with [nl] (before @ [ws @ CHR ''-'' # r] @ after)) =
           join_with [nl] (map convert_list_line before @
             [replicate (min 6 ((2 * count_list ws CHR 0x09 + count_list ws CHR '' '') div 2 + 1)) CHR ''*''
                @ '' '' @ spec_heading_text (after_ws r)]
             @ map convert_list_line after)"
proof -
  have "set (after_ws r) \<subseteq> set r"
    using m by (auto simp: after_ws_def marked_def Let_def dest: set_dropWhileD split: list.splits)
  then have "nl \<notin> set (after_ws r)" using r by blast
  then have "list_heading d (after_ws r) = replicate d CHR ''*'' @ '' '' @ spec_heading_text (after_ws r)" for d
    by (rule list_heading_spec)
  then show ?thesis using convert_hierarchical_structure_item [OF lines ws r m] by (simp only:)
qed

lemma spec_heading_text_demo:
  "spec_heading_text ''[x] done thing'' = ''DONE done thing''"
  "spec_heading_text ''[ ] open thing'' = ''TODO open thing''"
  "spec_heading_text ''NOW go'' = ''TODO go''"
  "spec_heading_text ''WAITING for it'' = ''WAITING for it''"
  "spec_heading_text ''todo buy milk'' = ''todo buy milk''"
  by (simp_all add: spec_heading_text_def spec_starts_def marked_def after_ws_def py_space_def
      spec_keywords_def spec_fold_def)

theorem list_heading_task_state_witness:
  "list_all (\<lambda>l. nl \<notin> set l) ([''- [ ] open thing''] @ [''- todo buy milk'']) \<and>
   list_all (\<lambda>c. py_space c \<and> c \<noteq> nl) ''  '' \<and> nl \<notin> set '' [x] done thing'' \<and> marked '' [x] done thing'' \<and>
   convert_hierarchical_structure
     (''- [ ] open thing'' @ [nl] @ ''  - [x] done thing'' @ [nl] @ ''- todo buy milk'') =
     ''* TODO open thing'' @ [nl] @ ''** DONE done thing'' @ [nl] @ ''* todo buy milk'' \<and>
   convert_hierarchical_structure ''- NOW go'' = ''* TODO go'' \<and>
   convert_hierarchical_structure ''- WAITING for it'' = ''* WAITING for it''"
proof -
  have l: "\<forall>l\<in>set ([''- [ ] open thing''] @ [''- todo buy milk'']). nl \<notin> set l" by (simp add: nl_def)
  have l0: "\<forall>l\<in>set ([] @ []). nl \<notin> set (l :: string)" by simp
  have a: "\<forall>c\<in>set ''  ''. py_space c \<and> c \<noteq> nl" by (simp add: py_space_def nl_def)
  have a0: "\<forall>c\<in>set []. py_space c \<and> c \<noteq> nl" by simp
  have b: "nl \<notin> set '' [x] done thing''" "nl \<notin> set '' [ ] open thing''" "nl \<notin> set '' todo buy milk''"
    "nl \<notin> set '' NOW go''" "nl \<notin> set '' WAITING for it''"
    by (simp_all add: nl_def)
  have c: "marked '' [x] done thing''" "marked '' [ ] open thing''" "marked '' todo buy milk''"
    "marked '' NOW go''" "marked '' WAITING for it''"
    by (simp_all add: marked_def py_space_def)
  have t: "after_ws '' [x] done thing'' = ''[x] done thing''" "after_ws '' [ ] open thing'' = ''[ ] open thing''"
    "after_ws '' todo buy milk'' = ''todo buy milk''" "after_ws '' NOW go'' = ''NOW go''"
    "after_ws '' WAITING for it'' = ''WAITING for it''"
    by (simp_all add: after_ws_def py_space_def)
  have o: "convert_list_line ''- [ ] open thing'' = ''* TODO open thing''"
    by code_simp
  have p: "convert_list_line ''- todo buy milk'' = ''* todo buy milk''"
    by code_simp
  from list_heading_task_state [OF l a b(1) c(1)] list_heading_task_state [OF l0 a0 b(4) c(4)]
    list_heading_task_state [OF l0 a0 b(5) c(5)]
  show ?thesis using l a b(1) c(1)
    by (simp add: t o p spec_heading_text_demo list_all_iff numeral_2_eq_2)
qed

text \<open>
  Claim C9 as stated fails for a list item whose text is the marker alone: the claim
  gives \<open>- NOW\<close> the state TODO and \<open>- [x]\<close> the state DONE, the pass makes the plain
  headings \<open>* NOW\<close> and \<open>* [x]\<close>.
\<close>

theorem task_marker_alone:
  "claimed_state ''NOW'' = Some ''TODO'' \<and> convert_hierarchical_structure ''- NOW'' = ''* NOW'' \<and>
   claimed_state ''OVERDUE'' = Some ''TODO'' \<and> convert_hierarchical_structure ''- OVERDUE'' = ''* OVERDUE'' \<and>
   claimed_state ''[x]'' = Some ''DONE'' \<and> convert_hierarchical_structure ''- [x]'' = ''* [x]''"
  by code_simp

section \<open>Double-bracket links\<close>


text \<open>Scanning over text in which the pattern cannot start.\<close>

lemma re_scan_skip:
  assumes first: "\<And>p u. ms r (p, u, []) \<noteq> [] \<Longrightarrow> \<exists>t. u = c0 # t" and s: "c0 \<notin> set s"
  shows "re_scan r p (s @ t) = map Keep s @ re_scan r (lastc p s) t"
  using s
proof (induction s arbitrary: p)
  case Nil
  show ?case by simp
next
  case (Cons c cs)
  have "ms r (p, c # cs @ t, []) = []"
    using first [of p "c # cs @ t"] Cons.prems by auto
  then have "match_at r p (c # cs @ t) = None" by (simp add: match_at_def)
  then show ?case using Cons by simp
qed

lemma re_scan_skip_all:
  assumes first: "\<And>p u. ms r (p, u, []) \<noteq> [] \<Longrightarrow> \<exists>t. u = c0 # t" and s: "c0 \<notin> set s"
  shows "re_scan r p s = map Keep s"
  using re_scan_skip [OF first s, where p = p and t = "[]"] by simp


lemma re_scan_hit:
  assumes "ms r (p, c # t, []) = (p', t', g) # others" and "length t' \<le> length t"
  shows "re_scan r p (c # t) = Hit (take (Suc (length t) - length t') (c # t)) g # re_scan r p' t'"
  using assms by (simp add: match_at_def)




lemma first_lit:
  assumes "ms (seq (lit (c0 # k) # rs)) (p, u, g) \<noteq> []"
  shows "\<exists>t. u = c0 # t"
proof (rule ccontr)
  assume "\<not> (\<exists>t. u = c0 # t)"
  then have "\<not> prefix (c0 # k) u" by (auto simp: prefix_def)
  then have "ms (seq (lit (c0 # k) # rs)) (p, u, g) = []"
    by (simp add: ms_seq_cons ms_lit del: ms.simps)
  with assms show False by simp
qed



lemma first_double_link: "ms rx_double_link (p, u, []) \<noteq> [] \<Longrightarrow> \<exists>t. u = CHR ''['' # t"
  unfolding rx_double_link_def by (rule first_lit)




























section \<open>The order of the steps of \<open>convert_file\<close>\<close>

text \<open>
  Claim C4. The claim asks that, in the output of the conversion of a document, an embed
  of a page link is an include of \<open>"<name>.org"\<close> and an embed of a block reference an
  include of the block's identifier. \<open>convert_file\<close> converts links and block references
  before embeds: for the body \<open>{{embed [[Page]]}} {{embed ((blk))}}\<close> the page embed stays
  an embed, now of the converted link, and the block embed becomes an include of a file
  named after the text \<open>id:<identifier>\<close> of the converted block reference.
\<close>

theorem embed_not_converted:
  "out_files (convert_file demo_conv ''pages'' (''a'', Some ''{{embed [[Page]]}} {{embed ((blk))}}'') ''a.org'')
     (''pages'', ''a.org'') =
   Some ('':PROPERTIES:'' @ [nl] @ '':ID: 00000000-0000-0000-0000-000000000007'' @ [nl] @ '':END:'' @ [nl] @
         ''#+TITLE: a'' @ [nl] @ [nl] @
         ''{{embed [[id:00000000-0000-0000-0000-000000000005][Page]]}} '' @
         ''#+INCLUDE: '' @ [CHR 0x22] @ ''id00000000-0000-0000-0000-000000000006.org'' @ [CHR 0x22])"
  by code_simp

text \<open>
  Claim C5. The claim asks that \<open>![alt](assets/pic.png)\<close> and \<open>![alt](../assets/pic.png)\<close>
  come out in the same form with \<open>../assets/\<close>. In \<open>convert_file\<close> the rewriting of
  Markdown links runs before \<open>update_asset_paths\<close> and turns both into Org links, which
  the patterns of \<open>update_asset_paths\<close> no longer match: the two outputs keep their
  different paths.
\<close>

theorem asset_forms_differ:
  "out_files (convert_file demo_conv ''pages'' (''a'', Some ''![alt](assets/pic.png)'') ''a.org'')
     (''pages'', ''a.org'') =
   Some ('':PROPERTIES:'' @ [nl] @ '':ID: 00000000-0000-0000-0000-000000000005'' @ [nl] @ '':END:'' @ [nl] @
         ''#+TITLE: a'' @ [nl] @ [nl] @ ''![[assets/pic.png][alt]]'') \<and>
   out_files (convert_file demo_conv ''pages'' (''b'', Some ''![alt](../assets/pic.png)'') ''b.org'')
     (''pages'', ''b.org'') =
   Some ('':PROPERTIES:'' @ [nl] @ '':ID: 00000000-0000-0000-0000-000000000005'' @ [nl] @ '':END:'' @ [nl] @
         ''#+TITLE: b'' @ [nl] @ [nl] @ ''![[../assets/pic.png][alt]]'')"
  by code_simp

section \<open>The registry during the scan\<close>

text \<open>
  Claim C6. The claim asks that an identifier, once assigned to a key, is never
  reassigned. \<open>scan_existing_pages\<close> assigns without looking the key up: with a file
  \<open>a.md\<close> in \<open>pages\<close> and another in \<open>journals\<close>, the name \<open>a\<close> has the first identifier
  drawn after the scan of \<open>pages\<close> and the second one after the scan of \<open>journals\<close>.
\<close>

theorem scan_reassigns_identifier:
  "page_ids (foldl scan_file demo_conv [(''a'', Some [])]) ''a'' =
     Some ''00000000-0000-0000-0000-000000000000'' \<and>
   page_ids (scan_existing_pages demo_conv \<lparr>pages = [(''a'', Some [])], journals = [(''a'', Some [])]\<rparr>) ''a'' =
     Some ''00000000-0000-0000-0000-000000000001''"
  by code_simp

section \<open>Bold and italic\<close>

lemma hexc_neq:
  assumes "hexc c"
  shows "(c = CHR ''#'') = False" "(c = CHR ''*'') = False" "(c = CHR ''_'') = False"
    "(c = CHR 0x60) = False" "(c = CHR ''~'') = False" "(c = CHR ''['') = False"
    "(c = CHR ''|'') = False" "(c = CHR 0x0A) = False" "(c = CHR ''>'') = False" "(c = CHR ''-'') = False"
    "(CHR ''#'' = c) = False" "(CHR ''*'' = c) = False" "(CHR ''_'' = c) = False"
    "(CHR 0x60 = c) = False" "(CHR ''~'' = c) = False" "(CHR ''['' = c) = False"
    "(CHR ''|'' = c) = False" "(CHR 0x0A = c) = False" "(CHR ''>'' = c) = False" "(CHR ''-'' = c) = False"
    "py_space c = False"
  using assms by (auto simp: hexc_def py_space_def)

lemma ms_behind_lit:
  "ms (seq (Behind pos P # Lit c0 # rs)) (p, s, g) =
     (case s of [] \<Rightarrow> []
      | x # t \<Rightarrow> if x = c0
                then (if (case p of None \<Rightarrow> False | Some c \<Rightarrow> P c) = pos then ms (seq rs) (Some x, t, g) else [])
                else [])"
  by (cases s) (simp_all add: ms_seq_cons)

lemmas ms_seq_step =
  ms_seq_nil ms_seq_cons [of "Lit c"] ms_seq_cons [of "Cls P"] ms_seq_cons [of "Many P lo hi gr"]
  ms_seq_cons [of "Grp n r"] ms_seq_cons [of "Ahead pos r"] ms_seq_cons [of "Alt a b"]
  ms_seq_cons [of "Opt r"] ms_seq_cons [of "Star r"] ms_seq_cons [of Bol] ms_seq_cons [of Eol]
  ms_seq_cons [of Bos] ms_seq_cons [of Eos] ms_seq_cons [of "lit k"] ms_seq_cons [of "seq qs"]
  ms_behind_lit ms_lit
  for c P lo hi gr n r pos a b k qs

lemmas rx_ev = re_sub_def re_sub_st_def match_at_def re_match_def ms_seq_step grp_text_def
  any_char_def is_char_def not_rbracket_def not_rparen_def not_nl_def nl_def

lemma str_replace_Nil: "old \<noteq> [] \<Longrightarrow> str_replace old new [] = []"
  by (subst str_replace.simps) simp

lemma str_replace_Cons:
  "old \<noteq> [] \<Longrightarrow> str_replace old new (c # cs) =
     (if prefix old (c # cs) then new @ str_replace old new (drop (length old) (c # cs))
      else c # str_replace old new cs)"
  by (subst str_replace.simps) simp

lemma markdown_bold_italic:
  assumes a: "hexc a1" "hexc a2" "hexc a3" "hexc a4" "hexc a5" "hexc a6" "hexc a7" "hexc a8"
      and b: "hexc b1" "hexc b2" "hexc b3" "hexc b4" "hexc b5" "hexc b6" "hexc b7" "hexc b8"
  shows "markdown_with (''##TEMP_CODE_'' @ hc @ ''##'', ''##TEMP_BOLD_'' @ [a1,a2,a3,a4,a5,a6,a7,a8] @ ''##'',
           ''##TEMP_ITALIC_'' @ [b1,b2,b3,b4,b5,b6,b7,b8] @ ''##'', ''##TEMP_STRIKE_'' @ hs @ ''##'',
           ''##TEMP_LINK_'' @ hl @ ''##'') ''**bold *and italic* text**'' = ''*bold /and italic/ text*''"
proof -
  let ?I = "''**bold *and italic* text**''"
  let ?TB = "''##TEMP_BOLD_'' @ [a1,a2,a3,a4,a5,a6,a7,a8] @ ''##''"
  let ?TI = "''##TEMP_ITALIC_'' @ [b1,b2,b3,b4,b5,b6,b7,b8] @ ''##''"
  let ?B = "?TB @ ''bold *and italic* text'' @ ?TB"
  let ?C = "?TB @ ''bold '' @ ?TI @ ''and italic'' @ ?TI @ '' text'' @ ?TB"
  let ?D = "''*bold '' @ ?TI @ ''and italic'' @ ?TI @ '' text*''"
  let ?E = "''*bold /and italic/ text*''"
  have c1: "re_sub_st rx_org_link preserve_org [] ?I = ([], ?I)"
    by (simp add: rx_ev rx_org_link_def)
  have c2: "re_sub_st rx_org_heading preserve_org [] ?I = ([], ?I)"
    by (simp add: rx_ev rx_org_heading_def py_space_def)
  have c3: "re_sub rx_md_header f ?I = ?I" for f
    by (simp add: rx_ev rx_md_header_def)
  have c4: "re_sub rx_hrule f ?I = ?I" for f
    by (simp add: rx_ev rx_hrule_def)
  have c5: "re_sub rx_code_block f ?I = ?I" for f
    by (simp add: rx_ev rx_code_block_def)
  have c6: "re_sub rx_quote f ?I = ?I" for f
    by (simp add: rx_ev rx_quote_def)
  have c7: "re_sub rx_inline_code f ?I = ?I" for f
    by (simp add: rx_ev rx_inline_code_def)
  have c8: "re_sub rx_bold_star (\<lambda>m g. t @ grp_text g 1 @ t) ?I = t @ ''bold *and italic* text'' @ t" for t
    by (simp add: rx_ev rx_bold_star_def)
  have c9: "re_sub rx_bold_under f ?B = ?B" for f
    using a b by (simp add: rx_ev rx_bold_under_def hexc_neq)
  have c10: "re_sub rx_italic_star (\<lambda>m g. t @ grp_text g 1 @ t) ?B =
               ?TB @ ''bold '' @ t @ ''and italic'' @ t @ '' text'' @ ?TB" for t
    using a b by (simp add: rx_ev rx_italic_star_def hexc_neq)
  have c11: "re_sub rx_italic_under f ?C = ?C" for f
    using a b by (simp add: rx_ev rx_italic_under_def hexc_neq ascii_word_def)
  have c12: "re_sub rx_strike f ?C = ?C" for f
    using a b by (simp add: rx_ev rx_strike_def hexc_neq)
  have c13: "re_sub rx_md_link f ?C = ?C" for f
    using a b by (simp add: rx_ev rx_md_link_def hexc_neq)
  have c14: "convert_tables ?C = ?C"
    using a b by (simp add: convert_tables_def rx_ev rx_table_row_def py_strip_def py_space_def hexc_neq)
  have c15: "str_replace (''##TEMP_CODE_'' @ hc @ ''##'') ''='' ?C = ?C"
    using a b by (simp add: str_replace_Nil str_replace_Cons hexc_neq)
  have c16: "str_replace ?TB ''*'' ?C = ?D"
    using a b by (simp add: str_replace_Nil str_replace_Cons hexc_neq)
  have c17: "str_replace ?TI ''/'' ?D = ?E"
    using a b by (simp add: str_replace_Nil str_replace_Cons hexc_neq)
  have c18: "str_replace (''##TEMP_STRIKE_'' @ hs @ ''##'') ''+'' ?E = ?E"
    by (simp add: str_replace_Nil str_replace_Cons)
  have c19: "re_sub (rx_link_token (''##TEMP_LINK_'' @ hl @ ''##'')) f ?E = ?E" for f
    by (simp add: rx_ev rx_link_token_def)
  show ?thesis
    unfolding markdown_with_def
    by (simp only: prod.case Let_def c1 c2 c3 c4 c5 c6 c7 c8 c9 c10 c11 c12 c13 c14 c15 c16 c17 c18 c19
        restore_org.simps)
qed

lemma take8_nth:
  assumes "length h = 32"
  shows "take 8 h = [h ! 0, h ! 1, h ! 2, h ! 3, h ! 4, h ! 5, h ! 6, h ! 7]"
proof -
  have "length (take 8 h) = 8" using assms by simp
  moreover have "take 8 h ! i = h ! i" if "i < 8" for i using that by simp
  ultimately show ?thesis
    by (intro nth_equalityI) (auto simp: nth_Cons' less_Suc_eq eval_nat_numeral)
qed

lemma hex_rng_nth: "hex_rng st \<Longrightarrow> i < 32 \<Longrightarrow> hexc (rng st k ! i)"
  by (simp add: hex_rng_def list_all_length)

lemma temp_tokens_eq:
  "temp_tokens st =
     (st\<lparr>draws := draws st + 5\<rparr>,
      ''##TEMP_CODE_'' @ take 8 (rng st (draws st)) @ ''##'',
      ''##TEMP_BOLD_'' @ take 8 (rng st (draws st + 1)) @ ''##'',
      ''##TEMP_ITALIC_'' @ take 8 (rng st (draws st + 2)) @ ''##'',
      ''##TEMP_STRIKE_'' @ take 8 (rng st (draws st + 3)) @ ''##'',
      ''##TEMP_LINK_'' @ take 8 (rng st (draws st + 4)) @ ''##'')"
  by (simp add: temp_tokens_def uuid_hex8_def numeral_eq_Suc)

text \<open>
  Claim C10. Whatever the five temporary tokens drawn, \<open>convert_markdown_to_org\<close> turns
  \<open>**bold *and italic* text**\<close> into \<open>*bold /and italic/ text*\<close>: the italic markers
  are nested inside the bold ones, and no temporary token is left in the result.
\<close>

theorem bold_italic_nested:
  assumes "hex_rng st"
  shows "convert_markdown_to_org st ''**bold *and italic* text**'' =
           (st\<lparr>draws := draws st + 5\<rparr>, ''*bold /and italic/ text*'')"
proof -
  let ?hb = "rng st (draws st + 1)" and ?hi = "rng st (draws st + 2)"
  have len: "length ?hb = 32" "length ?hi = 32"
    using assms by (simp_all add: hex_rng_def)
  have a: "hexc (?hb ! 0)" "hexc (?hb ! 1)" "hexc (?hb ! 2)" "hexc (?hb ! 3)"
      "hexc (?hb ! 4)" "hexc (?hb ! 5)" "hexc (?hb ! 6)" "hexc (?hb ! 7)"
    using assms by (simp_all add: hex_rng_nth)
  have b: "hexc (?hi ! 0)" "hexc (?hi ! 1)" "hexc (?hi ! 2)" "hexc (?hi ! 3)"
      "hexc (?hi ! 4)" "hexc (?hi ! 5)" "hexc (?hi ! 6)" "hexc (?hi ! 7)"
    using assms by (simp_all add: hex_rng_nth)
  show ?thesis
    unfolding convert_markdown_to_org_def temp_tokens_eq take8_nth [OF len(1)] take8_nth [OF len(2)]
    by (simp only: Let_def prod.case markdown_bold_italic [OF a b])
qed

lemma hex_rng_demo: "hex_rng demo_conv"
proof -
  have "''0123456789abcdef'' ! (k mod 16) \<in> set ''0123456789abcdef''" for k :: nat
    by (rule nth_mem) simp
  then have "hexc (''0123456789abcdef'' ! (k mod 16))" for k :: nat
    unfolding hexc_def .
  then show ?thesis
    by (simp add: hex_rng_def demo_conv_def init_conv_def demo_rng_def hexc_def)
qed

theorem bold_italic_nested_witness:
  "hex_rng demo_conv \<and>
   snd (convert_markdown_to_org demo_conv ''**bold *and italic* text**'') = ''*bold /and italic/ text*''"
  using bold_italic_nested [OF hex_rng_demo] hex_rng_demo by (simp only: snd_conv simp_thms)

end
